theory Spec2Isabelle
  imports Complex_Main "HOL-Library.Char_ord" "HOL-Library.List_Lexorder" "HOL-Library.Multiset"
begin

section \<open>Values, cells and frames\<close>

text \<open>
  A shallow embedding of \<^verbatim>\<open>src/station_reconstruct/dat_to_nc.py\<close>, class
  \<^verbatim>\<open>DatToNcConverter\<close>.

  A float64 cell is a \<open>real option\<close>: \<open>None\<close> is NaN, the missing marker. Arithmetic on
  cells is exact (the rounding of IEEE doubles is not modelled). A cell of an hourly frame is
  a scalar or an 8x8 numpy array held as an object.

  A pandas DataFrame is a list of column labels and a list of rows; a row is its index label
  and a dictionary from column labels to cells. The order of the column labels is kept where
  the source fixes it.
\<close>

type_synonym val = "real option"

datatype cell = Scalar val | Array "val list list"

datatype error = KeyError | ValueError | IndexError | ParseError

record ('i, 'c) frame =
  columns :: "string list"
  rows :: "('i \<times> (string \<rightharpoonup> 'c)) list"

definition at_val :: "(string \<rightharpoonup> val) \<Rightarrow> string \<Rightarrow> val" where
  "at_val r c = (case r c of Some v \<Rightarrow> v | None \<Rightarrow> None)"

definition at_cell :: "(string \<rightharpoonup> cell) \<Rightarrow> string \<Rightarrow> cell" where
  "at_cell r c = (case r c of Some v \<Rightarrow> v | None \<Rightarrow> Scalar None)"

definition isna :: "cell \<Rightarrow> bool" where
  "isna v = (case v of Scalar None \<Rightarrow> True | Scalar (Some x) \<Rightarrow> False | Array g \<Rightarrow> False)"

section \<open>Timestamps\<close>

text \<open>
  \<^verbatim>\<open>datetime(int(row["year"]), int(row["mon"]), int(row["day"]), int(row["hour"]), int(row["min"]))\<close>:
  \<open>int\<close> truncates towards zero and raises ValueError on NaN; the constructor raises
  ValueError outside the proleptic Gregorian calendar. A timestamp is kept as the number of
  minutes since the start of day 0 of that calendar (the day's ordinal as Python's
  \<^verbatim>\<open>toordinal\<close> counts it, times 1440, plus the minute of the day), so that the calendar
  hour of \<open>t\<close> is \<open>t div 60\<close> and its minute of the hour is \<open>t mod 60\<close>. The range of
  the 64-bit nanosecond timestamps of pandas (the years 1677 to 2262) is not modelled.
\<close>

definition py_int :: "real \<Rightarrow> int" where
  "py_int x = (if 0 \<le> x then \<lfloor>x\<rfloor> else \<lceil>x\<rceil>)"

definition is_leap :: "int \<Rightarrow> bool" where
  "is_leap y = (y mod 4 = 0 \<and> (if y mod 100 = 0 then y mod 400 = 0 else True))"

definition days_before_year :: "int \<Rightarrow> int" where
  "days_before_year year =
     (let y = year - 1 in y * 365 + y div 4 - y div 100 + y div 400)"

definition days_in_month :: "int \<Rightarrow> int \<Rightarrow> int" where
  "days_in_month year month =
     (if month = 2 \<and> is_leap year then 29
      else [31, 28, 31, 30, 31, 30, 31, 31, 30, 31, 30, 31] ! nat (month - 1))"

definition days_before_month :: "int \<Rightarrow> int \<Rightarrow> int" where
  "days_before_month year month =
     [0, 31, 59, 90, 120, 151, 181, 212, 243, 273, 304, 334] ! nat (month - 1)
       + (if 2 < month \<and> is_leap year then 1 else 0)"

definition ymd2ord :: "int \<Rightarrow> int \<Rightarrow> int \<Rightarrow> int" where
  "ymd2ord year month day = days_before_year year + days_before_month year month + day"

definition datetime :: "int \<Rightarrow> int \<Rightarrow> int \<Rightarrow> int \<Rightarrow> int \<Rightarrow> error + int" where
  "datetime year month day hour minute =
     (if 1 \<le> year \<and> year \<le> 9999 \<and> 1 \<le> month \<and> month \<le> 12
         \<and> 1 \<le> day \<and> day \<le> days_in_month year month
         \<and> 0 \<le> hour \<and> hour \<le> 23 \<and> 0 \<le> minute \<and> minute \<le> 59
      then Inr ((ymd2ord year month day * 24 + hour) * 60 + minute)
      else Inl ValueError)"

definition floor_h :: "int \<Rightarrow> int" where
  "floor_h t = 60 * (t div 60)"

definition minute_of :: "int \<Rightarrow> nat" where
  "minute_of t = nat (t mod 60)"

definition field_int :: "(string \<rightharpoonup> val) \<Rightarrow> string \<Rightarrow> error + int" where
  "field_int row k =
     (case row k of
        None \<Rightarrow> Inl KeyError
      | Some None \<Rightarrow> Inl ValueError
      | Some (Some x) \<Rightarrow> Inr (py_int x))"

definition row_datetime :: "(string \<rightharpoonup> val) \<Rightarrow> error + int" where
  "row_datetime row =
     (case field_int row ''year'' of Inl e \<Rightarrow> Inl e | Inr y \<Rightarrow>
     (case field_int row ''mon'' of Inl e \<Rightarrow> Inl e | Inr m \<Rightarrow>
     (case field_int row ''day'' of Inl e \<Rightarrow> Inl e | Inr d \<Rightarrow>
     (case field_int row ''hour'' of Inl e \<Rightarrow> Inl e | Inr h \<Rightarrow>
     (case field_int row ''min'' of Inl e \<Rightarrow> Inl e | Inr mi \<Rightarrow>
        datetime y m d h mi)))))"

text \<open>\<^verbatim>\<open>df.apply(lambda row: datetime(...), axis = 1)\<close>: the first row that raises ends the call.\<close>

fun apply_datetime :: "(string \<rightharpoonup> val) list \<Rightarrow> error + int list" where
  "apply_datetime [] = Inr []"
| "apply_datetime (r # rs) =
     (case row_datetime r of Inl e \<Rightarrow> Inl e | Inr t \<Rightarrow>
     (case apply_datetime rs of Inl e \<Rightarrow> Inl e | Inr ts \<Rightarrow> Inr (t # ts)))"

section \<open>Frame operations\<close>

text \<open>\<^verbatim>\<open>df.drop(columns = names)\<close> raises KeyError when a label is not a column.\<close>

definition drop_columns :: "string list \<Rightarrow> ('i, 'c) frame \<Rightarrow> error + ('i, 'c) frame" where
  "drop_columns names df =
     (if list_all (\<lambda>c. c \<in> set (columns df)) names
      then Inr \<lparr>columns = filter (\<lambda>c. c \<notin> set names) (columns df),
                rows = map (\<lambda>(i, r). (i, r |` (- set names))) (rows df)\<rparr>
      else Inl KeyError)"

text \<open>\<^verbatim>\<open>df.replace(-999.99, np.nan)\<close>, on every cell.\<close>

definition replace_cell :: "val \<Rightarrow> val \<Rightarrow> val \<Rightarrow> val" where
  "replace_cell to_replace new v = (if v = to_replace then new else v)"

definition df_replace :: "val \<Rightarrow> val \<Rightarrow> ('i, val) frame \<Rightarrow> ('i, val) frame" where
  "df_replace to_replace new df =
     \<lparr>columns = columns df,
      rows = map (\<lambda>(i, r). (i, map_option (replace_cell to_replace new) \<circ> r)) (rows df)\<rparr>"

definition sentinel :: val where
  "sentinel = Some (- 999.99)"

definition set_index :: "'j list \<Rightarrow> ('i, 'c) frame \<Rightarrow> ('j, 'c) frame" where
  "set_index idx df = \<lparr>columns = columns df, rows = zip idx (map snd (rows df))\<rparr>"

text \<open>\<^verbatim>\<open>df[name] = vs\<close>: a new label is appended to the columns, an old one is overwritten.\<close>

definition set_column :: "string \<Rightarrow> 'c list \<Rightarrow> ('i, 'c) frame \<Rightarrow> ('i, 'c) frame" where
  "set_column name vs df =
     \<lparr>columns = (if name \<in> set (columns df) then columns df else columns df @ [name]),
      rows = map (\<lambda>((i, r), v). (i, r(name \<mapsto> v))) (zip (rows df) vs)\<rparr>"

section \<open>The aggregation rule\<close>

text \<open>
  \<^verbatim>\<open>series.nunique()\<close> counts the distinct values that are not NaN; \<^verbatim>\<open>np.mean(series)\<close>
  is the mean of the values that are not NaN, and NaN when there is none.
\<close>

definition dropna_vals :: "val list \<Rightarrow> real list" where
  "dropna_vals s = map the (filter (\<lambda>v. v \<noteq> None) s)"

definition nunique :: "val list \<Rightarrow> nat" where
  "nunique s = length (remdups (dropna_vals s))"

definition np_mean :: "val list \<Rightarrow> val" where
  "np_mean s =
     (let xs = dropna_vals s
      in if xs = [] then None else Some (sum_list xs / real (length xs)))"

definition custom_aggregation :: "val list \<Rightarrow> val" where
  "custom_aggregation series = (if nunique series \<le> 2 then None else np_mean series)"

section \<open>Sensor selection and unit conversion\<close>

text \<open>
  Lines 144 to 148 of the source:
  \<^verbatim>\<open>df["tas"] = df[[self.tas_sensor]].mean(axis = 1)\<close> and
  \<^verbatim>\<open>df["tas"] = df["tas"] + 273.15\<close>. The constructor fixes the sensor to
  \<^verbatim>\<open>"mcp9808"\<close>; selecting a label that is not a column raises KeyError.
\<close>

definition tas_sensor :: string where
  "tas_sensor = ''mcp9808''"

definition select_and_convert :: "('i, val) frame \<Rightarrow> error + ('i, val) frame" where
  "select_and_convert df =
     (if tas_sensor \<in> set (columns df)
      then
        let df1 = set_column ''tas''
                    (map (\<lambda>(i, r). np_mean [at_val r tas_sensor]) (rows df)) df;
            df2 = set_column ''tas''
                    (map (\<lambda>(i, r). map_option (\<lambda>x. x + 273.15) (at_val r ''tas'')) (rows df1)) df1
        in Inr df2
      else Inl KeyError)"

section \<open>Hourly resampling\<close>

text \<open>
  \<^verbatim>\<open>df.resample("h")\<close>: pandas sorts the rows by their timestamp when the index is not
  increasing (a stable merge sort, so rows of one timestamp keep their order), lays out one
  bin per calendar hour from the hour of the first timestamp to the hour of the last one, and
  yields every bin with its label and its rows, the empty bins too.
\<close>

definition resample_h :: "(int \<times> 'r) list \<Rightarrow> (int \<times> (int \<times> 'r) list) list" where
  "resample_h rs =
     (case sort_key fst rs of
        [] \<Rightarrow> []
      | x # xs \<Rightarrow>
          (let first = floor_h (fst x);
               lst = floor_h (fst (last (x # xs)))
           in map (\<lambda>k. let h = first + 60 * int k
                        in (h, filter (\<lambda>(t, r). floor_h t = h) (x # xs)))
                  [0 ..< Suc (nat ((lst - first) div 60))]))"

text \<open>
  Scalar mode, \<^verbatim>\<open>df.resample("h").apply(custom_aggregation)\<close>: the function is called on
  each column of each bin.
\<close>

definition resample_apply :: "(val list \<Rightarrow> val) \<Rightarrow> (int, val) frame \<Rightarrow> (int, cell) frame" where
  "resample_apply f df =
     \<lparr>columns = columns df,
      rows = map (\<lambda>(h, grp).
                (h, (\<lambda>c. if c \<in> set (columns df)
                         then Some (Scalar (f (map (\<lambda>(t, r). at_val r c) grp)))
                         else None)))
             (resample_h (rows df))\<rparr>"

text \<open>
  Grid mode. \<^verbatim>\<open>np.nan * np.zeros((8, 8))\<close> is the grid of 64 missing cells. The table
  \<^verbatim>\<open>mapping_rule\<close> is imported from \<^verbatim>\<open>map_minutes_to_grid\<close>, a module that is not among
  the sources: it is a parameter here, a function from the minute to (row, col). An index
  outside the array raises IndexError.
\<close>

definition nan_grid :: "val list list" where
  "nan_grid = replicate 8 (replicate 8 None)"

fun place :: "(nat \<Rightarrow> nat \<times> nat) \<Rightarrow> (nat \<times> val) list \<Rightarrow> val list list \<Rightarrow> error + val list list" where
  "place mapping_rule [] grid = Inr grid"
| "place mapping_rule ((minute, temp) # rest) grid =
     (case mapping_rule minute of (row, col) \<Rightarrow>
        if row < length grid \<and> col < length (grid ! row)
        then place mapping_rule rest (grid[row := (grid ! row)[col := temp]])
        else Inl IndexError)"

text \<open>
  The body of the loop over the bins, first part: the readings of the bin are placed in turn,
  by their minute, each into a fresh grid.
\<close>

definition hourly_temp_array ::
    "(nat \<Rightarrow> nat \<times> nat) \<Rightarrow> (int \<times> (string \<rightharpoonup> val)) list \<Rightarrow> error + val list list" where
  "hourly_temp_array mapping_rule hour_data =
     place mapping_rule (map (\<lambda>(t, r). (minute_of t, at_val r ''tas'')) hour_data) nan_grid"

text \<open>
  Second part, line 172: \<^verbatim>\<open>hourly_df.loc[hour, 'temp'] = hourly_temp_array\<close> stores a
  two-dimensional array through \<^verbatim>\<open>.loc\<close>, and pandas does not store it. When the row label
  and the column label are both new, as they are in the first pass of the loop (the frame was
  created with the one column \<^verbatim>\<open>tas\<close> and without rows), pandas adds the row and then, in
  its branch for a new column and an array value, indexes a numpy array with the row key it
  has not yet resolved: an IndexError (in older versions of pandas the same store ends in a
  ValueError). Where one of the labels exists, an array of 8x8 does not fit the one cell and
  the store raises ValueError; the program does not reach that case.
\<close>

definition loc_set ::
    "'i \<Rightarrow> string \<Rightarrow> val list list \<Rightarrow> ('i, cell) frame \<Rightarrow> error + ('i, cell) frame" where
  "loc_set i c array df =
     (if i \<notin> set (map fst (rows df)) \<and> c \<notin> set (columns df) then Inl IndexError
      else Inl ValueError)"

fun grid_loop :: "(nat \<Rightarrow> nat \<times> nat) \<Rightarrow> (int \<times> (int \<times> (string \<rightharpoonup> val)) list) list
    \<Rightarrow> (int, cell) frame \<Rightarrow> error + (int, cell) frame" where
  "grid_loop mapping_rule [] hourly_df = Inr hourly_df"
| "grid_loop mapping_rule ((hour, hour_data) # groups) hourly_df =
     (case hourly_temp_array mapping_rule hour_data of
        Inl e \<Rightarrow> Inl e
      | Inr array \<Rightarrow>
         (case loc_set hour ''temp'' array hourly_df of
            Inl e \<Rightarrow> Inl e
          | Inr hourly_df' \<Rightarrow> grid_loop mapping_rule groups hourly_df'))"

text \<open>
  \<^verbatim>\<open>resample_to_hourly_steps(df)\<close> in two parts. \<open>working_frame\<close> is lines 132 to
  148: the timestamps, the dropped columns, the sentinel, the index, the derived column.
  On a frame without rows \<^verbatim>\<open>df.apply\<close> returns a frame, and assigning a frame of several
  columns to the one label \<^verbatim>\<open>"datetime"\<close> raises ValueError. The column
  \<^verbatim>\<open>"datetime"\<close> is held as the list \<open>stamps\<close> until \<^verbatim>\<open>set_index\<close> makes it the
  index; a column of that label in the file is overwritten by it. The second part is
  lines 158 to 174, the two resampling modes.
\<close>

definition time_columns :: "string list" where
  "time_columns = [''year'', ''mon'', ''day'', ''hour'', ''min'']"

definition working_frame :: "(nat, val) frame \<Rightarrow> error + (int, val) frame" where
  "working_frame df =
     (if rows df = [] then Inl ValueError
      else
       (case apply_datetime (map snd (rows df)) of Inl e \<Rightarrow> Inl e | Inr stamps \<Rightarrow>
       (case drop_columns time_columns df of Inl e \<Rightarrow> Inl e | Inr df1 \<Rightarrow>
          select_and_convert
            (set_index stamps
              (df_replace sentinel None
                \<lparr>columns = filter (\<lambda>c. c \<noteq> ''datetime'') (columns df1),
                 rows = map (\<lambda>(i, r). (i, r |` (- {''datetime''}))) (rows df1)\<rparr>)))))"

definition resample_to_hourly_steps ::
    "bool \<Rightarrow> (nat \<Rightarrow> nat \<times> nat) \<Rightarrow> (nat, val) frame \<Rightarrow> error + (int, cell) frame" where
  "resample_to_hourly_steps hourly mapping_rule df =
     (case working_frame df of
        Inl e \<Rightarrow> Inl e
      | Inr df4 \<Rightarrow>
          (if hourly then Inr (resample_apply custom_aggregation df4)
           else grid_loop mapping_rule (resample_h (rows df4))
                  \<lparr>columns = [''tas''], rows = []\<rparr>))"

section \<open>Extraction of a directory\<close>

text \<open>
  The method \<^verbatim>\<open>extract\<close> is \<open>extract_files\<close> here, its loop \<open>extract_loop\<close>.
  \<^verbatim>\<open>get_files\<close> keeps the names that end in \<^verbatim>\<open>.dat\<close> and sorts them. \<^verbatim>\<open>pd.read_csv\<close>
  is a parameter: the parsed frame of each file name, or the error the parser raised.
  \<^verbatim>\<open>pd.concat([a, b])\<close> appends the rows of \<open>b\<close> to those of \<open>a\<close> over the union of the
  columns, with NaN where a row has no cell.
\<close>

definition endswith :: "string \<Rightarrow> string \<Rightarrow> bool" where
  "endswith s suffix = (length suffix \<le> length s \<and> drop (length s - length suffix) s = suffix)"

definition get_files :: "string list \<Rightarrow> string list" where
  "get_files listdir = sort (filter (\<lambda>file. endswith file ''.dat'') listdir)"

definition convert_to_dataframe ::
    "bool \<Rightarrow> (nat \<Rightarrow> nat \<times> nat) \<Rightarrow> (string \<Rightarrow> error + (nat, val) frame) \<Rightarrow> string
      \<Rightarrow> error + (int, cell) frame" where
  "convert_to_dataframe hourly mapping_rule read_csv file =
     (case read_csv file of Inl e \<Rightarrow> Inl e
      | Inr df \<Rightarrow> resample_to_hourly_steps hourly mapping_rule df)"

definition reindex :: "string list \<Rightarrow> (string \<rightharpoonup> cell) \<Rightarrow> (string \<rightharpoonup> cell)" where
  "reindex cs r = (\<lambda>c. if c \<in> set cs then Some (at_cell r c) else None)"

definition pd_concat :: "('i, cell) frame \<Rightarrow> ('i, cell) frame \<Rightarrow> ('i, cell) frame" where
  "pd_concat a b =
     (let cs = columns a @ filter (\<lambda>c. c \<notin> set (columns a)) (columns b)
      in \<lparr>columns = cs,
          rows = map (\<lambda>(i, r). (i, reindex cs r)) (rows a)
               @ map (\<lambda>(i, r). (i, reindex cs r)) (rows b)\<rparr>)"

fun extract_loop ::
    "bool \<Rightarrow> (nat \<Rightarrow> nat \<times> nat) \<Rightarrow> (string \<Rightarrow> error + (nat, val) frame) \<Rightarrow> string list
      \<Rightarrow> (int, cell) frame \<Rightarrow> error + (int, cell) frame" where
  "extract_loop hourly mapping_rule read_csv [] dataframe = Inr dataframe"
| "extract_loop hourly mapping_rule read_csv (file # files) dataframe =
     (case convert_to_dataframe hourly mapping_rule read_csv file of
        Inl e \<Rightarrow> Inl e
      | Inr df \<Rightarrow> extract_loop hourly mapping_rule read_csv files (pd_concat dataframe df))"

definition extract_files ::
    "bool \<Rightarrow> (nat \<Rightarrow> nat \<times> nat) \<Rightarrow> (string \<Rightarrow> error + (nat, val) frame) \<Rightarrow> string list
      \<Rightarrow> nat option \<Rightarrow> error + (int, cell) frame" where
  "extract_files hourly mapping_rule read_csv listdir first_n_files =
     (let files = get_files listdir;
          n = (case first_n_files of None \<Rightarrow> length files | Some k \<Rightarrow> k)
      in extract_loop hourly mapping_rule read_csv (take n files) \<lparr>columns = [], rows = []\<rparr>)"

section \<open>Projection and renaming\<close>

text \<open>
  \<^verbatim>\<open>transform\<close>. The source builds the kept labels as
  \<^verbatim>\<open>list(set(columns).intersection(set(mapping.keys())))\<close>: the order in which Python
  lists a set of strings depends on their hashes, so the listing is a parameter,
  \<open>set_to_list\<close>. \<^verbatim>\<open>dropna(subset=["tas"])\<close> raises KeyError when \<^verbatim>\<open>"tas"\<close> is not a
  column.
\<close>

definition mapping :: "(string \<times> string) list" where
  "mapping = [(''tas'', ''tas''), (''vis_light'', ''vis_light''),
              (''uv_light'', ''uv_light''), (''ir_light'', ''ir_light'')]"

definition select_columns :: "string list \<Rightarrow> ('i, 'c) frame \<Rightarrow> ('i, 'c) frame" where
  "select_columns cs df = \<lparr>columns = cs, rows = map (\<lambda>(i, r). (i, r |` set cs)) (rows df)\<rparr>"

definition dropna :: "string \<Rightarrow> ('i, cell) frame \<Rightarrow> error + ('i, cell) frame" where
  "dropna c df =
     (if c \<in> set (columns df)
      then Inr \<lparr>columns = columns df, rows = filter (\<lambda>(i, r). \<not> isna (at_cell r c)) (rows df)\<rparr>
      else Inl KeyError)"

definition rename_label :: "(string \<times> string) list \<Rightarrow> string \<Rightarrow> string" where
  "rename_label m c = (case map_of m c of Some c' \<Rightarrow> c' | None \<Rightarrow> c)"

definition rename_columns :: "(string \<times> string) list \<Rightarrow> ('i, 'c) frame \<Rightarrow> ('i, 'c) frame" where
  "rename_columns m df =
     \<lparr>columns = map (rename_label m) (columns df),
      rows = map (\<lambda>(i, r).
               (i, (\<lambda>k. case filter (\<lambda>c. rename_label m c = k) (columns df) of
                           [] \<Rightarrow> None
                         | c # cs \<Rightarrow> r c)))
             (rows df)\<rparr>"

definition transform ::
    "bool \<Rightarrow> (string set \<Rightarrow> string list) \<Rightarrow> ('i, cell) frame \<Rightarrow> error + ('i, cell) frame" where
  "transform hourly set_to_list dataframe =
     (let intersect_columns = set_to_list (set (columns dataframe) \<inter> set (map fst mapping));
          df1 = select_columns intersect_columns dataframe
      in if hourly
         then (case dropna ''tas'' df1 of Inl e \<Rightarrow> Inl e
               | Inr df2 \<Rightarrow> Inr (rename_columns mapping df2))
         else Inr (rename_columns mapping df1))"
section \<open>Example inputs\<close>

text \<open>
  A file row with the columns \<^verbatim>\<open>year mon day hour min mcp9808\<close>, and a table
  that sends the minute \<open>m\<close> to row \<open>m div 8\<close>, column \<open>m mod 8\<close>.
\<close>

definition reading :: "real \<Rightarrow> real \<Rightarrow> real \<Rightarrow> real \<Rightarrow> real \<Rightarrow> val \<Rightarrow> (string \<rightharpoonup> val)" where
  "reading y mo d h mi v =
     [''year'' \<mapsto> Some y, ''mon'' \<mapsto> Some mo, ''day'' \<mapsto> Some d,
      ''hour'' \<mapsto> Some h, ''min'' \<mapsto> Some mi, ''mcp9808'' \<mapsto> v]"

definition file_columns :: "string list" where
  "file_columns = [''year'', ''mon'', ''day'', ''hour'', ''min'', ''mcp9808'']"

definition rowwise :: "nat \<Rightarrow> nat \<times> nat" where
  "rowwise m = (m div 8, m mod 8)"

definition file_clean :: "(nat, val) frame" where
  "file_clean = \<lparr>columns = file_columns,
                 rows = [(0, reading 2024 1 1 10 0 (Some 20)),
                         (1, reading 2024 1 1 10 30 (Some 22))]\<rparr>"

definition file_sentinel :: "(nat, val) frame" where
  "file_sentinel = \<lparr>columns = file_columns,
                    rows = [(0, reading 2024 1 1 10 0 (Some 20)),
                            (1, reading 2024 1 1 10 30 (Some (- 999.99)))]\<rparr>"

text \<open>
  A working frame that already has a column \<^verbatim>\<open>tas\<close>, and the frame the sensor
  selection makes of it.
\<close>

definition frame_with_tas :: "(int, val) frame" where
  "frame_with_tas = \<lparr>columns = [''mcp9808'', ''tas''],
                     rows = [(0, [''mcp9808'' \<mapsto> Some 20, ''tas'' \<mapsto> Some 5])]\<rparr>"

definition frame_converted :: "(int, val) frame" where
  "frame_converted = \<lparr>columns = [''mcp9808'', ''tas''],
                      rows = [(0, [''mcp9808'' \<mapsto> Some 20, ''tas'' \<mapsto> Some 293.15])]\<rparr>"

text \<open>An hourly frame of two rows, the second without a temperature.\<close>

definition hourly_table :: "(int, cell) frame" where
  "hourly_table = \<lparr>columns = [''mcp9808'', ''tas''],
                   rows = [(600, [''mcp9808'' \<mapsto> Scalar (Some 21), ''tas'' \<mapsto> Scalar (Some 294.15)]),
                           (660, [''mcp9808'' \<mapsto> Scalar None, ''tas'' \<mapsto> Scalar None])]\<rparr>"

text \<open>
  An hourly frame with cells that hold arrays: the first row has no temperature and a grid of
  missing cells under \<^verbatim>\<open>temp\<close>, the second a grid of missing cells under \<^verbatim>\<open>tas\<close>.
\<close>

definition grid_table :: "(int, cell) frame" where
  "grid_table = \<lparr>columns = [''tas'', ''temp''],
                 rows = [(600, [''tas'' \<mapsto> Scalar None, ''temp'' \<mapsto> Array nan_grid]),
                         (660, [''tas'' \<mapsto> Array nan_grid, ''temp'' \<mapsto> Scalar None])]\<rparr>"

text \<open>
  A file of five readings: at 10:05, 10:15 (the sentinel), 10:20 and 10:40, none in the hour
  from 11:00, and one at 12:05; and its working frame.
\<close>

definition file_gap :: "(nat, val) frame" where
  "file_gap = \<lparr>columns = file_columns,
               rows = [(0, reading 2024 1 1 10 5 (Some 20)),
                       (1, reading 2024 1 1 10 15 (Some (- 999.99))),
                       (2, reading 2024 1 1 10 20 (Some 21)),
                       (3, reading 2024 1 1 10 40 (Some 22)),
                       (4, reading 2024 1 1 12 5 (Some 25))]\<rparr>"

definition work_gap :: "(int, val) frame" where
  "work_gap = (case working_frame file_gap of Inl e \<Rightarrow> \<lparr>columns = [], rows = []\<rparr> | Inr df \<Rightarrow> df)"

text \<open>
  The specification leaves open whether the table sends two minutes to one cell. A table
  that sends the minutes \<open>2k\<close> and \<open>2k + 1\<close> to one cell; a file whose two
  readings, at 10:03 and then at 10:02, are not in time order; and the file of the
  specification's example, with readings at 10:00, 10:30 and 10:45.
\<close>

definition paired :: "nat \<Rightarrow> nat \<times> nat" where
  "paired m = ((m div 2) div 8, (m div 2) mod 8)"

definition file_unsorted :: "(nat, val) frame" where
  "file_unsorted = \<lparr>columns = file_columns,
                    rows = [(0, reading 2024 1 1 10 3 (Some 22)),
                            (1, reading 2024 1 1 10 2 (Some 20))]\<rparr>"

definition work_unsorted :: "(int, val) frame" where
  "work_unsorted = (case working_frame file_unsorted of Inl e \<Rightarrow> \<lparr>columns = [], rows = []\<rparr> | Inr df \<Rightarrow> df)"

definition file_example :: "(nat, val) frame" where
  "file_example = \<lparr>columns = file_columns,
                   rows = [(0, reading 2024 1 1 10 0 (Some 20)),
                           (1, reading 2024 1 1 10 30 (Some 22)),
                           (2, reading 2024 1 1 10 45 (Some 20))]\<rparr>"

definition work_example :: "(int, val) frame" where
  "work_example = (case working_frame file_example of Inl e \<Rightarrow> \<lparr>columns = [], rows = []\<rparr> | Inr df \<Rightarrow> df)"

text \<open>
  A directory of two files that cover the same hour, each with three readings:
  \<^verbatim>\<open>a.dat\<close> at 10:05, 10:20 and 10:40, \<^verbatim>\<open>b.dat\<close> at 10:10, 10:30 and 10:50.
\<close>

definition file_a :: "(nat, val) frame" where
  "file_a = \<lparr>columns = file_columns,
             rows = [(0, reading 2024 1 1 10 5 (Some 20)),
                     (1, reading 2024 1 1 10 20 (Some 21)),
                     (2, reading 2024 1 1 10 40 (Some 22))]\<rparr>"

definition file_b :: "(nat, val) frame" where
  "file_b = \<lparr>columns = file_columns,
             rows = [(0, reading 2024 1 1 10 10 (Some 30)),
                     (1, reading 2024 1 1 10 30 (Some 31)),
                     (2, reading 2024 1 1 10 50 (Some 32))]\<rparr>"

definition work_a :: "(int, val) frame" where
  "work_a = (case working_frame file_a of Inl e \<Rightarrow> \<lparr>columns = [], rows = []\<rparr> | Inr df \<Rightarrow> df)"

definition work_b :: "(int, val) frame" where
  "work_b = (case working_frame file_b of Inl e \<Rightarrow> \<lparr>columns = [], rows = []\<rparr> | Inr df \<Rightarrow> df)"

definition two_files :: "string \<Rightarrow> error + (nat, val) frame" where
  "two_files name = (if name = ''a.dat'' then Inr file_a
                     else if name = ''b.dat'' then Inr file_b else Inl ParseError)"

text \<open>The hourly tables of the two files in scalar mode.\<close>

definition hourly_a :: "(int, cell) frame" where
  "hourly_a = resample_apply custom_aggregation work_a"

definition hourly_b :: "(int, cell) frame" where
  "hourly_b = resample_apply custom_aggregation work_b"

section \<open>The aggregation rule of scalar mode\<close>

lemma dropna_vals_comprehension: "dropna_vals s = [x. Some x \<leftarrow> s]"
  by (induction s) (auto simp: dropna_vals_def)

text \<open>
  Claim C2. In scalar mode the aggregate of a group of readings is missing when its values
  that are not missing have at most two distinct values, and is their arithmetic mean
  otherwise; the group 20, 20, 21 aggregates to missing and the group 20, 21, 22 to 21.
\<close>

theorem custom_aggregation_rule:
  "custom_aggregation grp =
     (let series = [x. Some x \<leftarrow> grp]
      in if card (set series) \<le> 2 then None
         else Some (sum_list series / real (length series)))
   \<and> custom_aggregation [Some 20, Some 20, Some 21] = None
   \<and> custom_aggregation [Some 20, Some 21, Some 22] = Some 21"
proof -
  define series where "series = [x. Some x \<leftarrow> grp]"
  have d: "dropna_vals grp = series"
    by (simp only: series_def dropna_vals_comprehension)
  have n: "nunique grp = card (set series)"
    by (simp only: nunique_def d length_remdups_card_conv)
  have "custom_aggregation grp =
     (if card (set series) \<le> 2 then None else Some (sum_list series / real (length series)))"
  proof (cases "card (set series) \<le> 2")
    case True
    then show ?thesis by (simp add: custom_aggregation_def n)
  next
    case False
    then have "series \<noteq> []" by auto
    with False show ?thesis by (simp add: custom_aggregation_def n np_mean_def d)
  qed
  then have "custom_aggregation grp =
     (let series = [x. Some x \<leftarrow> grp]
      in if card (set series) \<le> 2 then None
         else Some (sum_list series / real (length series)))"
    by (simp only: Let_def series_def)
  moreover have "custom_aggregation [Some 20, Some 20, Some 21] = None"
    by (simp add: custom_aggregation_def nunique_def dropna_vals_def)
  moreover have "custom_aggregation [Some 20, Some 21, Some 22] = Some 21"
    by (simp add: custom_aggregation_def nunique_def np_mean_def dropna_vals_def)
  ultimately show ?thesis by blast
qed

section \<open>Sentinel normalization\<close>

text \<open>
  Claim C8. Replacing the sentinel turns every cell that is exactly -999.99 into the missing
  marker and leaves every other cell, the columns and the index as they were; doing it twice
  is doing it once, and a frame without the sentinel is not changed.
\<close>

theorem sentinel_normalization:
  "columns (df_replace sentinel None df) = columns df
   \<and> rows (df_replace sentinel None df)
       = map (\<lambda>(i, r). (i, \<lambda>c. map_option (\<lambda>v. if v = Some (- 999.99) then None else v) (r c)))
           (rows df)
   \<and> df_replace sentinel None (df_replace sentinel None df) = df_replace sentinel None df
   \<and> ((\<forall>(i, r) \<in> set (rows df). \<forall>c. r c \<noteq> Some (Some (- 999.99)))
        \<longrightarrow> df_replace sentinel None df = df)"
proof -
  have idem: "replace_cell sentinel None (replace_cell sentinel None v) = replace_cell sentinel None v" for v
    by (simp add: replace_cell_def sentinel_def)
  have c: "columns (df_replace sentinel None df) = columns df"
    by (simp add: df_replace_def)
  have r: "rows (df_replace sentinel None df)
       = map (\<lambda>(i, r). (i, \<lambda>c. map_option (\<lambda>v. if v = Some (- 999.99) then None else v) (r c)))
           (rows df)"
    by (simp add: df_replace_def replace_cell_def [abs_def] sentinel_def comp_def)
  have i: "df_replace sentinel None (df_replace sentinel None df) = df_replace sentinel None df"
    by (simp add: df_replace_def comp_def option.map_comp idem split_def)
  have n: "df_replace sentinel None df = df"
    if h: "\<forall>(i, r) \<in> set (rows df). \<forall>c. r c \<noteq> Some (Some (- 999.99))"
  proof -
    have "map_option (replace_cell sentinel None) \<circ> r = r" if "(i, r) \<in> set (rows df)" for i r
    proof
      fix k
      from h that have "r k \<noteq> Some (Some (- 999.99))" by blast
      then show "(map_option (replace_cell sentinel None) \<circ> r) k = r k"
        by (cases "r k") (auto simp: replace_cell_def sentinel_def)
    qed
    then have "map (\<lambda>(i, r). (i, map_option (replace_cell sentinel None) \<circ> r)) (rows df) = rows df"
      by (intro map_idI) auto
    then show ?thesis
      by (simp add: df_replace_def)
  qed
  from c r i n show ?thesis by blast
qed

theorem sentinel_normalization_witness:
  "df_replace sentinel None file_clean = file_clean
   \<and> map (\<lambda>(i, r). r ''mcp9808'') (rows (df_replace sentinel None file_sentinel))
       = [Some (Some 20), Some None]"
  using sentinel_normalization [of file_clean] sentinel_normalization [of file_sentinel]
  by (simp add: file_clean_def file_sentinel_def reading_def)

section \<open>Sensor selection and unit conversion: what changes\<close>

lemma np_mean_single: "np_mean [v] = v"
  by (cases v) (simp_all add: np_mean_def dropna_vals_def)

lemma map_zip_map: "map g (zip xs (map f xs)) = map (\<lambda>x. g (x, f x)) xs"
  by (induction xs) simp_all

lemma set_column_rows:
  "rows (set_column name (map f (rows df)) df) = map (\<lambda>(i, r). (i, r(name \<mapsto> f (i, r)))) (rows df)"
  by (simp add: set_column_def map_zip_map split_def)

lemma select_and_convert_rows:
  assumes "select_and_convert df = Inr df'"
  shows "rows df' = map (\<lambda>(i, r). (i, r(''tas'' \<mapsto> map_option (\<lambda>x. x + 273.15) (at_val r tas_sensor)))) (rows df)"
proof -
  from assms have s: "tas_sensor \<in> set (columns df)"
    by (auto simp: select_and_convert_def split: if_splits)
  define df1 where "df1 = set_column ''tas'' (map (\<lambda>(i, r). np_mean [at_val r tas_sensor]) (rows df)) df"
  have r1: "rows df1 = map (\<lambda>(i, r). (i, r(''tas'' \<mapsto> at_val r tas_sensor))) (rows df)"
    by (simp add: df1_def set_column_rows np_mean_single split_def)
  from assms s have "df' = set_column ''tas''
      (map (\<lambda>(i, r). map_option (\<lambda>x. x + 273.15) (at_val r ''tas'')) (rows df1)) df1"
    by (simp add: select_and_convert_def Let_def df1_def)
  then have "rows df' = map (\<lambda>(i, r). (i, r(''tas'' \<mapsto> map_option (\<lambda>x. x + 273.15) (at_val r ''tas'')))) (rows df1)"
    by (simp add: set_column_rows split_def)
  also have "\<dots> = map (\<lambda>(i, r). (i, r(''tas'' \<mapsto> map_option (\<lambda>x. x + 273.15) (at_val r tas_sensor)))) (rows df)"
    by (simp add: r1 split_def at_val_def comp_def)
  finally show ?thesis .
qed

lemma select_and_convert_columns:
  assumes "select_and_convert df = Inr df'"
  shows "columns df' = (if ''tas'' \<in> set (columns df) then columns df else columns df @ [''tas''])"
  using assms by (auto simp: select_and_convert_def set_column_def Let_def split: if_splits)

text \<open>
  Claim C9, as amended. The sensor selection and conversion writes the column \<^verbatim>\<open>tas\<close>
  only: the index and every column of another label, the sensor column with its Celsius
  values among them, are as before, and \<^verbatim>\<open>tas\<close> holds the sensor value plus 273.15.
\<close>

theorem select_and_convert_frame:
  "select_and_convert df = Inr df' \<Longrightarrow>
     map fst (rows df') = map fst (rows df)
   \<and> set (columns df) \<subseteq> set (columns df')
   \<and> (\<forall>c. c \<noteq> ''tas'' \<longrightarrow> map (\<lambda>(i, r). r c) (rows df') = map (\<lambda>(i, r). r c) (rows df))
   \<and> map (\<lambda>(i, r). r ''tas'') (rows df')
       = map (\<lambda>(i, r). Some (map_option (\<lambda>x. x + 273.15) (at_val r tas_sensor))) (rows df)"
  by (auto simp: select_and_convert_rows select_and_convert_columns split_def comp_def)

theorem select_and_convert_frame_witness:
  "select_and_convert frame_with_tas = Inr frame_converted
   \<and> map (\<lambda>(i, r). r ''mcp9808'') (rows frame_converted) = [Some (Some 20)]
   \<and> map (\<lambda>(i, r). r ''mcp9808'') (rows frame_with_tas) = [Some (Some 20)]"
proof -
  have r: "select_and_convert frame_with_tas = Inr frame_converted"
    by (simp add: select_and_convert_def frame_with_tas_def frame_converted_def set_column_def
        tas_sensor_def at_val_def np_mean_def dropna_vals_def fun_upd_twist)
  from select_and_convert_frame [OF r] r show ?thesis
    by (simp add: frame_with_tas_def)
qed

text \<open>
  Claim C9, as stated, fails on a frame that has a column \<^verbatim>\<open>tas\<close> before the stage:
  its value 5 is overwritten by 293.15.
\<close>

theorem select_and_convert_overwrites_tas:
  "''tas'' \<in> set (columns frame_with_tas)
   \<and> map (\<lambda>(i, r). r ''tas'') (rows frame_with_tas) = [Some (Some 5)]
   \<and> (case select_and_convert frame_with_tas of
        Inl e \<Rightarrow> []
      | Inr df' \<Rightarrow> map (\<lambda>(i, r). r ''tas'') (rows df')) = [Some (Some 293.15)]"
  by (simp add: select_and_convert_def frame_with_tas_def set_column_def
        tas_sensor_def at_val_def np_mean_def dropna_vals_def)

section \<open>The hourly bins\<close>

lemma custom_aggregation_eq:
  "custom_aggregation s =
     (if card (set (dropna_vals s)) \<le> 2 then None
      else Some (sum_list (dropna_vals s) / real (length (dropna_vals s))))"
proof (cases "card (set (dropna_vals s)) \<le> 2")
  case True
  then show ?thesis
    by (simp add: custom_aggregation_def nunique_def length_remdups_card_conv)
next
  case False
  then have "dropna_vals s \<noteq> []" by auto
  with False show ?thesis
    by (simp add: custom_aggregation_def nunique_def length_remdups_card_conv np_mean_def Let_def)
qed

lemma mset_dropna_vals: "mset xs = mset ys \<Longrightarrow> mset (dropna_vals xs) = mset (dropna_vals ys)"
  unfolding dropna_vals_def mset_map mset_filter by simp

lemma custom_aggregation_mset:
  assumes "mset xs = mset ys"
  shows "custom_aggregation xs = custom_aggregation ys"
proof -
  from assms have m: "mset (dropna_vals xs) = mset (dropna_vals ys)"
    by (rule mset_dropna_vals)
  then have "set (dropna_vals xs) = set (dropna_vals ys)"
    by (rule mset_eq_setD)
  moreover from m have "length (dropna_vals xs) = length (dropna_vals ys)"
    by (rule mset_eq_length)
  moreover from m have "sum_list (dropna_vals xs) = sum_list (dropna_vals ys)"
    by (metis sum_mset_sum_list)
  ultimately show ?thesis
    by (simp add: custom_aggregation_eq)
qed

lemma sorted_hd_Min:
  "sorted (map f xs) \<Longrightarrow> xs \<noteq> [] \<Longrightarrow> f (hd xs) = Min (f ` set xs)"
  by (cases xs) (auto intro!: Min_eqI [symmetric])

lemma sorted_last_Max:
  "sorted (map f xs) \<Longrightarrow> xs \<noteq> [] \<Longrightarrow> f (last xs) = Max (f ` set xs)"
proof (induction xs)
  case Nil
  then show ?case by simp
next
  case (Cons x xs)
  show ?case
  proof (cases "xs = []")
    case True
    then show ?thesis by simp
  next
    case False
    with Cons have "f (last xs) = Max (f ` set xs)" by simp
    moreover from Cons.prems False have "f x \<le> Max (f ` set xs)"
      by (metis List.finite_set Max_ge_iff empty_is_image finite_imageI hd_in_set image_eqI list.set_intros(1) list.simps(9) set_empty sorted_simps(2) list.set_map)
    ultimately show ?thesis using False by (simp add: max_def)
  qed
qed

lemma resample_h_eq:
  assumes "rs \<noteq> []"
  shows "resample_h rs =
     map (\<lambda>k. (floor_h (Min (fst ` set rs)) + 60 * int k,
               filter (\<lambda>(t, r). floor_h t = floor_h (Min (fst ` set rs)) + 60 * int k)
                 (sort_key fst rs)))
       [0 ..< Suc (nat ((floor_h (Max (fst ` set rs)) - floor_h (Min (fst ` set rs))) div 60))]"
proof -
  define srt where "srt = sort_key fst rs"
  from assms have ne: "srt \<noteq> []"
    by (metis srt_def length_sort length_0_conv)
  then obtain x xs where x: "srt = x # xs" by (cases srt) auto
  have s: "sorted (map fst srt)" by (simp add: srt_def)
  have st: "set srt = set rs" by (simp add: srt_def)
  from sorted_hd_Min [OF s ne] have h: "fst x = Min (fst ` set rs)" by (simp add: x st [symmetric])
  from sorted_last_Max [OF s ne] have l: "fst (last (x # xs)) = Max (fst ` set rs)"
    by (simp only: x [symmetric] st)
  show ?thesis
    unfolding resample_h_def srt_def [symmetric]
    by (simp only: x list.case Let_def h l)
qed

lemma resample_h_group:
  assumes "(h, grp) \<in> set (resample_h rs)"
  shows "grp = filter (\<lambda>(t, r). floor_h t = h) (sort_key fst rs)"
proof (cases "rs = []")
  case True
  with assms show ?thesis by (simp add: resample_h_def)
next
  case False
  from assms show ?thesis
    unfolding resample_h_eq [OF False] by auto
qed

section \<open>The working frame\<close>

lemma apply_datetime_length: "apply_datetime rs = Inr ts \<Longrightarrow> length ts = length rs"
  by (induction rs arbitrary: ts) (auto split: sum.splits)

lemma working_frame_index:
  assumes "working_frame raw = Inr df"
  shows "apply_datetime (map snd (rows raw)) = Inr (map fst (rows df)) \<and> rows df \<noteq> []"
proof -
  from assms have ne: "rows raw \<noteq> []"
    by (auto simp: working_frame_def split: if_splits)
  from assms ne obtain stamps df1 where
    a: "apply_datetime (map snd (rows raw)) = Inr stamps" and
    d: "drop_columns time_columns raw = Inr df1" and
    s: "select_and_convert
          (set_index stamps
            (df_replace sentinel None
              \<lparr>columns = filter (\<lambda>c. c \<noteq> ''datetime'') (columns df1),
               rows = map (\<lambda>(i, r). (i, r |` (- {''datetime''}))) (rows df1)\<rparr>)) = Inr df"
    by (auto simp: working_frame_def split: if_splits sum.splits)
  from d have l1: "length (rows df1) = length (rows raw)"
    by (auto simp: drop_columns_def split: if_splits)
  from a have l2: "length stamps = length (rows raw)"
    using apply_datetime_length by fastforce
  have "map fst (rows df) = map fst (zip stamps (map snd
      (rows (df_replace sentinel None
              \<lparr>columns = filter (\<lambda>c. c \<noteq> ''datetime'') (columns df1),
               rows = map (\<lambda>(i, r). (i, r |` (- {''datetime''}))) (rows df1)\<rparr>))))"
    unfolding select_and_convert_rows [OF s]
    by (simp add: set_index_def split_def comp_def)
  also have "\<dots> = stamps"
    by (rule map_fst_zip) (simp add: df_replace_def l1 l2)
  finally have "map fst (rows df) = stamps" .
  with a l2 ne show ?thesis by auto
qed

lemma reading_datetime:
  "row_datetime (reading 2024 1 1 10 0 v) = Inr 1063996440"
  "row_datetime (reading 2024 1 1 10 2 v) = Inr 1063996442"
  "row_datetime (reading 2024 1 1 10 3 v) = Inr 1063996443"
  "row_datetime (reading 2024 1 1 10 5 v) = Inr 1063996445"
  "row_datetime (reading 2024 1 1 10 10 v) = Inr 1063996450"
  "row_datetime (reading 2024 1 1 10 15 v) = Inr 1063996455"
  "row_datetime (reading 2024 1 1 10 20 v) = Inr 1063996460"
  "row_datetime (reading 2024 1 1 10 30 v) = Inr 1063996470"
  "row_datetime (reading 2024 1 1 10 40 v) = Inr 1063996480"
  "row_datetime (reading 2024 1 1 10 45 v) = Inr 1063996485"
  "row_datetime (reading 2024 1 1 10 50 v) = Inr 1063996490"
  "row_datetime (reading 2024 1 1 12 5 v) = Inr 1063996565"
  by (simp_all add: row_datetime_def reading_def field_int_def py_int_def datetime_def
      days_in_month_def ymd2ord_def days_before_year_def days_before_month_def is_leap_def)

lemma working_frame_ok:
  assumes "rows raw \<noteq> []" and "apply_datetime (map snd (rows raw)) = Inr stamps"
    and "list_all (\<lambda>c. c \<in> set (columns raw)) time_columns"
    and "tas_sensor \<in> set (columns raw)"
  shows "\<exists>df. working_frame raw = Inr df"
proof -
  from assms(3) obtain df1 where d: "drop_columns time_columns raw = Inr df1"
    and c: "columns df1 = filter (\<lambda>c. c \<notin> set time_columns) (columns raw)"
    by (simp add: drop_columns_def)
  from assms(4) c have "tas_sensor \<in> set (columns (set_index stamps
            (df_replace sentinel None
              \<lparr>columns = filter (\<lambda>c. c \<noteq> ''datetime'') (columns df1),
               rows = map (\<lambda>(i, r). (i, r |` (- {''datetime''}))) (rows df1)\<rparr>)))"
    by (simp add: set_index_def df_replace_def tas_sensor_def time_columns_def)
  then have "\<exists>df. select_and_convert (set_index stamps
            (df_replace sentinel None
              \<lparr>columns = filter (\<lambda>c. c \<noteq> ''datetime'') (columns df1),
               rows = map (\<lambda>(i, r). (i, r |` (- {''datetime''}))) (rows df1)\<rparr>)) = Inr df"
    by (simp add: select_and_convert_def Let_def)
  with assms(1,2) d show ?thesis
    by (simp add: working_frame_def)
qed

lemmas eval_working_frame =
  working_frame_def reading_datetime
  drop_columns_def time_columns_def file_columns_def select_and_convert_def set_index_def
  df_replace_def tas_sensor_def set_column_def Let_def

lemmas eval_cells = at_val_def np_mean_def dropna_vals_def replace_cell_def sentinel_def reading_def

lemma upt_2: "[0 ..< 2] = [0, 1]"
  by (simp add: upt_rec)

section \<open>Projection: which rows are dropped\<close>

lemma rename_label_mapping: "rename_label mapping c = c"
  by (simp add: rename_label_def mapping_def)

lemma map_rename_label_mapping: "map (rename_label mapping) cs = cs"
  by (rule map_idI) (simp add: rename_label_mapping)

lemma filter_eq_label:
  "(case filter (\<lambda>c. c = k) cs of [] \<Rightarrow> None | c # rest \<Rightarrow> r c) = (if k \<in> set cs then r k else None)"
  by (induction cs) auto

lemma rename_columns_mapping:
  "rename_columns mapping df =
     \<lparr>columns = columns df, rows = map (\<lambda>(i, r). (i, r |` set (columns df))) (rows df)\<rparr>"
  by (simp add: rename_columns_def rename_label_mapping map_rename_label_mapping
      filter_eq_label restrict_map_def)

lemma isna_scalar_none: "isna v \<longleftrightarrow> v = Scalar None"
  by (cases v) (simp_all add: isna_def split: option.splits)

text \<open>
  Claim C7. The projection drops a row exactly when the run is in scalar mode and the row's
  \<^verbatim>\<open>tas\<close> is missing: the rows of the result are the rows of the input that are not
  such, in their order, cut down to the kept columns; in grid mode no row is dropped, whatever
  its cells hold. The kept columns are the columns of the input among the four output labels,
  in whatever order the set of them is listed.
\<close>

theorem transform_drop_rule:
  "set (set_to_list (set (columns df) \<inter> {''tas'', ''vis_light'', ''uv_light'', ''ir_light''}))
       = set (columns df) \<inter> {''tas'', ''vis_light'', ''uv_light'', ''ir_light''} \<Longrightarrow>
   (hourly \<longrightarrow> ''tas'' \<in> set (columns df)) \<Longrightarrow>
   \<exists>out. transform hourly set_to_list df = Inr out
     \<and> set (columns out)
         = set (columns df) \<inter> {''tas'', ''vis_light'', ''uv_light'', ''ir_light''}
     \<and> rows out = map (\<lambda>(i, r). (i, r |` set (columns out)))
                     (filter (\<lambda>(i, r). \<not> (hourly \<and> at_cell r ''tas'' = Scalar None)) (rows df))
     \<and> (\<not> hourly \<longrightarrow> map fst (rows out) = map fst (rows df))"
proof -
  assume o: "set (set_to_list (set (columns df) \<inter> {''tas'', ''vis_light'', ''uv_light'', ''ir_light''}))
       = set (columns df) \<inter> {''tas'', ''vis_light'', ''uv_light'', ''ir_light''}"
  assume h: "hourly \<longrightarrow> ''tas'' \<in> set (columns df)"
  define cs where "cs = set_to_list (set (columns df) \<inter> set (map fst mapping))"
  define keep :: "'a \<times> (string \<rightharpoonup> cell) \<Rightarrow> bool"
    where "keep = (\<lambda>(i, r). \<not> (hourly \<and> at_cell r ''tas'' = Scalar None))"
  define out :: "('a, cell) frame"
    where "out = \<lparr>columns = cs, rows = map (\<lambda>(i, r). (i, r |` set cs)) (filter keep (rows df))\<rparr>"
  have m: "set (map fst mapping) = {''tas'', ''vis_light'', ''uv_light'', ''ir_light''}"
    by (auto simp: mapping_def)
  have cs_eq: "set cs = set (columns df) \<inter> {''tas'', ''vis_light'', ''uv_light'', ''ir_light''}"
    unfolding cs_def m by (rule o)
  have sel: "rename_columns mapping (select_columns cs df)
      = \<lparr>columns = cs, rows = map (\<lambda>(i, r). (i, r |` set cs)) (rows df)\<rparr>"
    by (simp add: rename_columns_mapping select_columns_def split_def comp_def)
  have t: "transform hourly set_to_list df = Inr out"
  proof (cases hourly)
    case False
    then show ?thesis
      unfolding transform_def Let_def cs_def [symmetric]
      by (simp add: sel out_def keep_def)
  next
    case True
    with h have tas: "''tas'' \<in> set cs" by (simp add: cs_eq)
    then have a: "at_cell (r |` set cs) ''tas'' = at_cell r ''tas''" for r :: "string \<rightharpoonup> cell"
      by (simp add: at_cell_def)
    have d: "dropna ''tas'' (select_columns cs df)
        = Inr \<lparr>columns = cs, rows = map (\<lambda>(i, r). (i, r |` set cs)) (filter keep (rows df))\<rparr>"
      using tas True
      by (simp add: dropna_def select_columns_def filter_map comp_def split_def a keep_def
          isna_scalar_none)
    show ?thesis
      unfolding transform_def Let_def cs_def [symmetric]
      by (simp add: True d rename_columns_mapping out_def split_def comp_def)
  qed
  have c1: "set (columns out) = set (columns df) \<inter> {''tas'', ''vis_light'', ''uv_light'', ''ir_light''}"
    unfolding out_def by (simp only: frame.simps cs_eq)
  have c2: "rows out = map (\<lambda>(i, r). (i, r |` set (columns out)))
       (filter (\<lambda>(i, r). \<not> (hourly \<and> at_cell r ''tas'' = Scalar None)) (rows df))"
    by (simp add: out_def keep_def)
  have c3: "\<not> hourly \<longrightarrow> map fst (rows out) = map fst (rows df)"
    by (simp add: out_def keep_def split_def comp_def)
  show ?thesis
    by (intro exI [of _ out] conjI) (rule t, rule c1, rule c2, rule c3)
qed

theorem transform_drop_rule_witness:
  "(\<exists>out. transform True sorted_list_of_set hourly_table = Inr out \<and> map fst (rows out) = [600])
   \<and> (\<exists>out. transform False sorted_list_of_set hourly_table = Inr out
          \<and> map fst (rows out) = [600, 660])
   \<and> (\<exists>out. transform False sorted_list_of_set grid_table = Inr out
          \<and> map fst (rows out) = [600, 660])"
proof -
  have o: "set (sorted_list_of_set
              (set (columns hourly_table) \<inter> {''tas'', ''vis_light'', ''uv_light'', ''ir_light''}))
      = set (columns hourly_table) \<inter> {''tas'', ''vis_light'', ''uv_light'', ''ir_light''}"
    by (rule set_sorted_list_of_set) simp
  have t: "''tas'' \<in> set (columns hourly_table)"
    by (simp add: hourly_table_def)
  have k: "filter (\<lambda>(i, r). \<not> (True \<and> at_cell r ''tas'' = Scalar None)) (rows hourly_table)
      = [(600, [''mcp9808'' \<mapsto> Scalar (Some 21), ''tas'' \<mapsto> Scalar (Some 294.15)])]"
    by (simp add: hourly_table_def at_cell_def)
  from t have h1: "True \<longrightarrow> ''tas'' \<in> set (columns hourly_table)" by simp
  have h2: "False \<longrightarrow> ''tas'' \<in> set (columns hourly_table)" by simp
  from transform_drop_rule [of sorted_list_of_set hourly_table True, OF o h1]
  obtain out1 where a: "transform True sorted_list_of_set hourly_table = Inr out1"
    and a': "rows out1 = map (\<lambda>(i, r). (i, r |` set (columns out1)))
                     (filter (\<lambda>(i, r). \<not> (True \<and> at_cell r ''tas'' = Scalar None)) (rows hourly_table))"
    by (elim exE conjE) (rule that)
  from a' have a'': "map fst (rows out1) = [600]"
    unfolding k by simp
  from transform_drop_rule [of sorted_list_of_set hourly_table False, OF o h2]
  obtain out2 where b: "transform False sorted_list_of_set hourly_table = Inr out2"
    and b': "\<not> False \<longrightarrow> map fst (rows out2) = map fst (rows hourly_table)"
    by (elim exE conjE) (rule that)
  from b' have b'': "map fst (rows out2) = [600, 660]"
    by (simp add: hourly_table_def)
  have o': "set (sorted_list_of_set
              (set (columns grid_table) \<inter> {''tas'', ''vis_light'', ''uv_light'', ''ir_light''}))
      = set (columns grid_table) \<inter> {''tas'', ''vis_light'', ''uv_light'', ''ir_light''}"
    by (rule set_sorted_list_of_set) simp
  have h3: "False \<longrightarrow> ''tas'' \<in> set (columns grid_table)" by simp
  from transform_drop_rule [of sorted_list_of_set grid_table False, OF o' h3]
  obtain out3 where c: "transform False sorted_list_of_set grid_table = Inr out3"
    and c': "\<not> False \<longrightarrow> map fst (rows out3) = map fst (rows grid_table)"
    by (elim exE conjE) (rule that)
  from c' have c'': "map fst (rows out3) = [600, 660]"
    by (simp add: grid_table_def)
  show ?thesis
    by (intro conjI exI [of _ out1] exI [of _ out2] exI [of _ out3])
      (rule a, rule a'', rule b, rule b'', rule c, rule c'')
qed

section \<open>Scalar mode\<close>

lemma work_gap: "working_frame file_gap = Inr work_gap"
proof -
  have "\<exists>df. working_frame file_gap = Inr df"
    by (rule working_frame_ok
          [where stamps = "[1063996445, 1063996455, 1063996460, 1063996480, 1063996565]"])
      (simp_all add: file_gap_def reading_datetime time_columns_def file_columns_def tas_sensor_def)
  then show ?thesis
    by (auto simp: work_gap_def)
qed

lemma work_gap_rows:
  "\<exists>r0 r1 r2 r3 r4. rows work_gap
       = [(1063996445, r0), (1063996455, r1), (1063996460, r2), (1063996480, r3), (1063996565, r4)]
     \<and> at_val r0 ''mcp9808'' = Some 20 \<and> at_val r1 ''mcp9808'' = None
     \<and> at_val r2 ''mcp9808'' = Some 21 \<and> at_val r3 ''mcp9808'' = Some 22
     \<and> at_val r4 ''mcp9808'' = Some 25
     \<and> at_val r0 ''tas'' = Some 293.15 \<and> at_val r1 ''tas'' = None
     \<and> at_val r2 ''tas'' = Some 294.15 \<and> at_val r3 ''tas'' = Some 295.15
     \<and> at_val r4 ''tas'' = Some 298.15"
  apply (simp add: work_gap_def file_gap_def eval_working_frame)
  apply (simp add: eval_cells)
  done

lemma work_gap_columns: "columns work_gap = [''mcp9808'', ''tas'']"
  by (simp add: work_gap_def file_gap_def eval_working_frame)

lemma mset_hour_series:
  "mset (map g (filter P (sort_key f rs))) = mset (map g (filter P rs))"
  by simp

lemma custom_aggregation_three:
  "custom_aggregation s =
     (let series = [x. Some x \<leftarrow> s]
      in if 3 \<le> card (set series) then Some (sum_list series / real (length series)) else None)"
proof -
  define series where "series = [x. Some x \<leftarrow> s]"
  have d: "dropna_vals s = series"
    by (simp only: series_def dropna_vals_comprehension)
  have "custom_aggregation s =
     (if 3 \<le> card (set series) then Some (sum_list series / real (length series)) else None)"
  proof (cases "card (set series) \<le> 2")
    case True
    then have "\<not> 3 \<le> card (set series)" by simp
    with True show ?thesis by (simp add: custom_aggregation_eq d)
  next
    case False
    then have "3 \<le> card (set series)" by simp
    with False show ?thesis by (simp add: custom_aggregation_eq d)
  qed
  then show ?thesis
    by (simp only: Let_def series_def)
qed

text \<open>
  Claim C10. In scalar mode the rule is applied to every column of the working frame, the
  sensor column and the derived column \<^verbatim>\<open>tas\<close> among them: for every calendar hour from
  the first to the last and every column, the hourly cell is missing unless the column has at
  least three distinct values that are not missing among the readings of that hour, and then
  it is their mean.
\<close>

theorem scalar_mode_every_column:
  assumes "working_frame raw = Inr df" and "c \<in> set (columns df)"
  shows "\<exists>out. resample_to_hourly_steps True mapping_rule raw = Inr out
     \<and> columns out = columns df
     \<and> tas_sensor \<in> set (columns out) \<and> ''tas'' \<in> set (columns out)
     \<and> (let H0 = floor_h (Min (fst ` set (rows df)));
             Hn = floor_h (Max (fst ` set (rows df)))
         in map (\<lambda>(h, r). (h, r c)) (rows out)
            = map (\<lambda>k. let h = H0 + 60 * int k;
                           series = [x. Some x \<leftarrow> map (\<lambda>(t, row). at_val row c)
                                      (filter (\<lambda>(t, row). floor_h t = h) (rows df))]
                       in (h, Some (Scalar (if 3 \<le> card (set series)
                                           then Some (sum_list series / real (length series))
                                           else None))))
                [0 ..< Suc (nat ((Hn - H0) div 60))])"
proof -
  define out where "out = resample_apply custom_aggregation df"
  from assms(1) have ne: "rows df \<noteq> []"
    using working_frame_index by blast
  have r: "resample_to_hourly_steps True mapping_rule raw = Inr out"
    by (simp add: resample_to_hourly_steps_def assms(1) out_def)
  have cols: "columns out = columns df"
    by (simp add: out_def resample_apply_def)
  from assms(1) obtain df3 where s: "select_and_convert df3 = Inr df"
    by (auto simp: working_frame_def split: if_splits sum.splits)
  then have t: "tas_sensor \<in> set (columns df)" "''tas'' \<in> set (columns df)"
    by (auto simp: select_and_convert_def set_column_def Let_def split: if_splits)
  have agg: "custom_aggregation (map (\<lambda>(t, row). at_val row c)
                (filter (\<lambda>(t, r). floor_h t = h) (sort_key fst (rows df))))
      = (let series = [x. Some x \<leftarrow> map (\<lambda>(t, row). at_val row c)
                         (filter (\<lambda>(t, row). floor_h t = h) (rows df))]
         in if 3 \<le> card (set series) then Some (sum_list series / real (length series)) else None)" for h
  proof -
    have "custom_aggregation (map (\<lambda>(t, row). at_val row c)
                (filter (\<lambda>(t, r). floor_h t = h) (sort_key fst (rows df))))
       = custom_aggregation (map (\<lambda>(t, row). at_val row c)
                (filter (\<lambda>(t, r). floor_h t = h) (rows df)))"
      by (rule custom_aggregation_mset) (rule mset_hour_series)
    then show ?thesis
      by (simp only: custom_aggregation_three)
  qed
  have "map (\<lambda>(h, r). (h, r c)) (rows out)
      = map (\<lambda>(h, grp). (h, Some (Scalar (custom_aggregation (map (\<lambda>(t, row). at_val row c) grp)))))
          (resample_h (rows df))"
    using assms(2) by (simp add: out_def resample_apply_def split_def comp_def)
  also have "\<dots> = map (\<lambda>k. let h = floor_h (Min (fst ` set (rows df))) + 60 * int k;
                           series = [x. Some x \<leftarrow> map (\<lambda>(t, row). at_val row c)
                                      (filter (\<lambda>(t, row). floor_h t = h) (rows df))]
                       in (h, Some (Scalar (if 3 \<le> card (set series)
                                           then Some (sum_list series / real (length series))
                                           else None))))
                [0 ..< Suc (nat ((floor_h (Max (fst ` set (rows df))) - floor_h (Min (fst ` set (rows df)))) div 60))]"
    unfolding resample_h_eq [OF ne] map_map comp_def split_conv agg
    by (simp only: Let_def)
  finally have m: "map (\<lambda>(h, r). (h, r c)) (rows out)
      = map (\<lambda>k. let h = floor_h (Min (fst ` set (rows df))) + 60 * int k;
                           series = [x. Some x \<leftarrow> map (\<lambda>(t, row). at_val row c)
                                      (filter (\<lambda>(t, row). floor_h t = h) (rows df))]
                       in (h, Some (Scalar (if 3 \<le> card (set series)
                                           then Some (sum_list series / real (length series))
                                           else None))))
                [0 ..< Suc (nat ((floor_h (Max (fst ` set (rows df))) - floor_h (Min (fst ` set (rows df)))) div 60))]" .
  show ?thesis
    unfolding Let_def
    by (intro exI [of _ out] conjI) (rule r, rule cols, simp_all only: cols t m [unfolded Let_def])
qed

theorem scalar_mode_every_column_witness:
  "\<exists>out. resample_to_hourly_steps True rowwise file_gap = Inr out
     \<and> map (\<lambda>(h, r). (h, r ''mcp9808'')) (rows out)
         = [(1063996440, Some (Scalar (Some 21))),
            (1063996500, Some (Scalar None)),
            (1063996560, Some (Scalar None))]"
proof -
  from work_gap_rows obtain r0 r1 r2 r3 r4 where
    r: "rows work_gap
       = [(1063996445, r0), (1063996455, r1), (1063996460, r2), (1063996480, r3), (1063996565, r4)]"
    and v: "at_val r0 ''mcp9808'' = Some 20" "at_val r1 ''mcp9808'' = None"
      "at_val r2 ''mcp9808'' = Some 21" "at_val r3 ''mcp9808'' = Some 22"
      "at_val r4 ''mcp9808'' = Some 25"
    by (elim exE conjE)
  have c: "''mcp9808'' \<in> set (columns work_gap)"
    by (simp add: work_gap_columns)
  from scalar_mode_every_column [OF work_gap c, of rowwise] obtain out where
    o: "resample_to_hourly_steps True rowwise file_gap = Inr out"
    and m: "(let H0 = floor_h (Min (fst ` set (rows work_gap)));
             Hn = floor_h (Max (fst ` set (rows work_gap)))
         in map (\<lambda>(h, r). (h, r ''mcp9808'')) (rows out)
            = map (\<lambda>k. let h = H0 + 60 * int k;
                           series = [x. Some x \<leftarrow> map (\<lambda>(t, row). at_val row ''mcp9808'')
                                      (filter (\<lambda>(t, row). floor_h t = h) (rows work_gap))]
                       in (h, Some (Scalar (if 3 \<le> card (set series)
                                           then Some (sum_list series / real (length series))
                                           else None))))
                [0 ..< Suc (nat ((Hn - H0) div 60))])"
    by (elim exE conjE)
  from m have "map (\<lambda>(h, r). (h, r ''mcp9808'')) (rows out)
         = [(1063996440, Some (Scalar (Some 21))),
            (1063996500, Some (Scalar None)),
            (1063996560, Some (Scalar None))]"
    by (simp add: r v floor_h_def Let_def upt_2)
  with o show ?thesis
    by (intro exI [of _ out] conjI)
qed

section \<open>Grid mode\<close>

lemma minute_of_lt: "minute_of t < 60"
  by (simp add: minute_of_def nat_less_iff)

lemma place_cells:
  assumes "length g = 8" and "\<forall>row \<in> set g. length row = 8"
    and "\<forall>(m, v) \<in> set xs. fst (mp m) < 8 \<and> snd (mp m) < 8"
  shows "\<exists>g'. place mp xs g = Inr g' \<and> length g' = 8 \<and> (\<forall>row \<in> set g'. length row = 8)
     \<and> (\<forall>i < 8. \<forall>j < 8. g' ! i ! j =
           (case filter (\<lambda>(m, v). mp m = (i, j)) xs of
              [] \<Rightarrow> g ! i ! j
            | y # ys \<Rightarrow> snd (last (y # ys))))"
  using assms
proof (induction xs arbitrary: g)
  case Nil
  then show ?case by simp
next
  case (Cons x xs)
  obtain m v where x: "x = (m, v)" by (cases x)
  obtain r c where rc: "mp m = (r, c)" by (cases "mp m")
  from Cons.prems(3) x rc have b: "r < 8" "c < 8" by auto
  define g1 where "g1 = g[r := (g ! r)[c := v]]"
  from Cons.prems(1,2) b have lr: "length (g ! r) = 8" by simp
  have l1: "length g1 = 8" by (simp add: g1_def Cons.prems(1))
  have l2: "\<forall>row \<in> set g1. length row = 8"
    using Cons.prems(1,2) b lr
    by (auto simp: g1_def dest!: set_update_subset_insert [THEN subsetD])
  from Cons.prems(3) have v3: "\<forall>(m, v) \<in> set xs. fst (mp m) < 8 \<and> snd (mp m) < 8" by simp
  from Cons.IH [OF l1 l2 v3] obtain g' where
    p: "place mp xs g1 = Inr g'" and lg: "length g' = 8" "\<forall>row \<in> set g'. length row = 8"
    and cells: "\<forall>i < 8. \<forall>j < 8. g' ! i ! j =
           (case filter (\<lambda>(m, v). mp m = (i, j)) xs of
              [] \<Rightarrow> g1 ! i ! j
            | y # ys \<Rightarrow> snd (last (y # ys)))"
    by blast
  have step: "place mp (x # xs) g = Inr g'"
    using p b lr Cons.prems(1) by (simp add: x rc g1_def)
  have g1c: "g1 ! i ! j = (if (i, j) = (r, c) then v else g ! i ! j)" if "i < 8" "j < 8" for i j
    using that b lr Cons.prems(1) by (auto simp: g1_def nth_list_update)
  have "g' ! i ! j =
           (case filter (\<lambda>(m, v). mp m = (i, j)) (x # xs) of
              [] \<Rightarrow> g ! i ! j
            | y # ys \<Rightarrow> snd (last (y # ys)))" if ij: "i < 8" "j < 8" for i j
  proof (cases "filter (\<lambda>(m, v). mp m = (i, j)) xs")
    case Nil
    with cells ij have "g' ! i ! j = g1 ! i ! j" by simp
    with Nil g1c [OF ij] show ?thesis by (auto simp: x rc)
  next
    case (Cons y ys)
    with cells ij have "g' ! i ! j = snd (last (y # ys))" by simp
    with Cons show ?thesis by (simp add: x rc)
  qed
  with step lg show ?case by blast
qed

lemma nan_grid_shape: "length nan_grid = 8" "\<forall>row \<in> set nan_grid. length row = 8"
  by (simp_all add: nan_grid_def)

lemma nan_grid_cell: "i < 8 \<Longrightarrow> j < 8 \<Longrightarrow> nan_grid ! i ! j = None"
  by (simp add: nan_grid_def)

lemma hourly_temp_array_cells:
  assumes "\<forall>m < 60. fst (mp m) < 8 \<and> snd (mp m) < 8"
  shows "\<exists>g. hourly_temp_array mp grp = Inr g \<and> length g = 8 \<and> (\<forall>row \<in> set g. length row = 8)
     \<and> (\<forall>i < 8. \<forall>j < 8. g ! i ! j =
           (case filter (\<lambda>(t, r). mp (minute_of t) = (i, j)) grp of
              [] \<Rightarrow> None
            | y # ys \<Rightarrow> at_val (snd (last (y # ys))) ''tas''))"
proof -
  let ?xs = "map (\<lambda>(t, r). (minute_of t, at_val r ''tas'')) grp"
  from assms have v: "\<forall>(m, v) \<in> set ?xs. fst (mp m) < 8 \<and> snd (mp m) < 8"
    by (auto simp: minute_of_lt)
  from place_cells [OF nan_grid_shape v] obtain g where
    p: "place mp ?xs nan_grid = Inr g" and l: "length g = 8" "\<forall>row \<in> set g. length row = 8"
    and cells: "\<forall>i < 8. \<forall>j < 8. g ! i ! j =
           (case filter (\<lambda>(m, v). mp m = (i, j)) ?xs of
              [] \<Rightarrow> nan_grid ! i ! j
            | y # ys \<Rightarrow> snd (last (y # ys)))"
    by blast
  have f: "filter (\<lambda>(m, v). mp m = (i, j)) ?xs
      = map (\<lambda>(t, r). (minute_of t, at_val r ''tas'')) (filter (\<lambda>(t, r). mp (minute_of t) = (i, j)) grp)" for i j
    by (simp add: filter_map comp_def split_def)
  have "g ! i ! j =
           (case filter (\<lambda>(t, r). mp (minute_of t) = (i, j)) grp of
              [] \<Rightarrow> None
            | y # ys \<Rightarrow> at_val (snd (last (y # ys))) ''tas'')" if ij: "i < 8" "j < 8" for i j
  proof (cases "filter (\<lambda>(t, r). mp (minute_of t) = (i, j)) grp")
    case Nil
    with cells ij f [of i j] show ?thesis by (simp add: nan_grid_cell)
  next
    case (Cons y ys)
    with cells ij f [of i j] show ?thesis
      by (simp add: last_map split_def)
  qed
  with p l show ?thesis by (auto simp: hourly_temp_array_def)
qed

lemma hourly_temp_array_empty: "hourly_temp_array mp [] = Inr nan_grid"
  by (simp add: hourly_temp_array_def)

lemma resample_h_hours:
  assumes "rs \<noteq> []"
  shows "map fst (resample_h rs) =
     map (\<lambda>k. floor_h (Min (fst ` set rs)) + 60 * int k)
       [0 ..< Suc (nat ((floor_h (Max (fst ` set rs)) - floor_h (Min (fst ` set rs))) div 60))]"
  unfolding resample_h_eq [OF assms] by (simp add: comp_def)

lemma resample_h_nonempty: "rs \<noteq> [] \<Longrightarrow> resample_h rs \<noteq> []"
  by (simp add: resample_h_eq)

lemma rowwise_valid: "\<forall>m < 60. fst (rowwise m) < 8 \<and> snd (rowwise m) < 8"
  by (auto simp: rowwise_def less_mult_imp_div_less)

lemma rowwise_inj: "inj_on rowwise {..<60}"
proof (rule inj_onI)
  fix m n :: nat
  assume "rowwise m = rowwise n"
  then have "m div 8 = n div 8" "m mod 8 = n mod 8"
    by (simp_all add: rowwise_def)
  then show "m = n"
    by (metis div_mult_mod_eq)
qed

lemma paired_valid: "\<forall>m < 60. fst (paired m) < 8 \<and> snd (paired m) < 8"
  by (auto simp: paired_def less_mult_imp_div_less)

lemma place_error: "place mp xs g = Inl e \<Longrightarrow> e = IndexError"
proof (induction xs arbitrary: g)
  case Nil
  then show ?case by simp
next
  case (Cons x xs)
  obtain m v where x: "x = (m, v)" by (cases x)
  obtain r c where rc: "mp m = (r, c)" by (cases "mp m")
  from Cons.prems show ?case
    by (auto simp: x rc split: if_splits dest: Cons.IH)
qed

lemma grid_loop_first_store:
  "grid_loop mp (x # groups) \<lparr>columns = [''tas''], rows = []\<rparr> = Inl IndexError"
proof -
  obtain h grp where x: "x = (h, grp)" by (cases x)
  show ?thesis
  proof (cases "hourly_temp_array mp grp")
    case (Inl e)
    then have "e = IndexError"
      unfolding hourly_temp_array_def by (rule place_error)
    with Inl show ?thesis by (simp add: x)
  next
    case (Inr g)
    then show ?thesis by (simp add: x loc_set_def)
  qed
qed

lemma grid_mode_raises:
  assumes "working_frame raw = Inr df"
  shows "resample_to_hourly_steps False mp raw = Inl IndexError"
proof -
  from assms have "rows df \<noteq> []"
    using working_frame_index by blast
  then obtain x groups where "resample_h (rows df) = x # groups"
    using resample_h_nonempty by (cases "resample_h (rows df)") auto
  then show ?thesis
    by (simp add: resample_to_hourly_steps_def assms grid_loop_first_store)
qed

lemma stamp_decompose: "t = floor_h t + int (minute_of t)"
  by (simp add: floor_h_def minute_of_def)

lemma filter_hour_cell_stable:
  fixes rs :: "(int \<times> 'b) list"
  assumes "inj_on mp {..<60}"
  shows "filter (\<lambda>(t, row). floor_h t = h \<and> mp (minute_of t) = ij) (sort_key fst rs)
     = filter (\<lambda>(t, row). floor_h t = h \<and> mp (minute_of t) = ij) rs"
proof (cases "\<exists>k. floor_h k = h \<and> mp (minute_of k) = ij")
  case False
  then have "filter (\<lambda>(t, row). floor_h t = h \<and> mp (minute_of t) = ij) (sort_key fst rs) = []"
    and "filter (\<lambda>(t, row). floor_h t = h \<and> mp (minute_of t) = ij) rs = []"
    by (auto simp: filter_empty_conv)
  then show ?thesis by simp
next
  case True
  then obtain k where k: "floor_h k = h" "mp (minute_of k) = ij" by blast
  have u: "t = k" if "floor_h t = h" "mp (minute_of t) = ij" for t
  proof -
    from that k have "mp (minute_of t) = mp (minute_of k)" by simp
    with assms have "minute_of t = minute_of k"
      by (auto dest!: inj_onD simp: minute_of_lt)
    with that(1) k(1) show ?thesis
      using stamp_decompose [of t] stamp_decompose [of k] by simp
  qed
  have p: "(floor_h t = h \<and> mp (minute_of t) = ij) = (t = k)" for t
    using u [of t] k by blast
  have a: "filter (\<lambda>(t, row). floor_h t = h \<and> mp (minute_of t) = ij) xs
      = filter (\<lambda>y. fst y = k) xs" for xs :: "(int \<times> 'b) list"
    by (rule filter_cong) (simp_all add: p split_def)
  show ?thesis by (simp only: a sort_key_stable)
qed

lemma work_unsorted: "working_frame file_unsorted = Inr work_unsorted"
proof -
  have "\<exists>df. working_frame file_unsorted = Inr df"
    by (rule working_frame_ok [where stamps = "[1063996443, 1063996442]"])
      (simp_all add: file_unsorted_def reading_datetime time_columns_def
        file_columns_def tas_sensor_def)
  then show ?thesis
    by (auto simp: work_unsorted_def)
qed

lemma work_unsorted_rows:
  "\<exists>r0 r1. rows work_unsorted = [(1063996443, r0), (1063996442, r1)]
     \<and> at_val r0 ''tas'' = Some 295.15 \<and> at_val r1 ''tas'' = Some 293.15"
  apply (simp add: work_unsorted_def file_unsorted_def eval_working_frame)
  apply (simp add: eval_cells)
  done

lemma work_example: "working_frame file_example = Inr work_example"
proof -
  have "\<exists>df. working_frame file_example = Inr df"
    by (rule working_frame_ok [where stamps = "[1063996440, 1063996470, 1063996485]"])
      (simp_all add: file_example_def reading_datetime time_columns_def
        file_columns_def tas_sensor_def)
  then show ?thesis
    by (auto simp: work_example_def)
qed

lemma work_example_rows:
  "\<exists>r0 r1 r2. rows work_example = [(1063996440, r0), (1063996470, r1), (1063996485, r2)]
     \<and> at_val r0 ''tas'' = Some 293.15 \<and> at_val r1 ''tas'' = Some 295.15
     \<and> at_val r2 ''tas'' = Some 293.15"
  apply (simp add: work_example_def file_example_def eval_working_frame)
  apply (simp add: eval_cells)
  done

text \<open>
  Claim C6, as amended. The table is a function of the minute, so a lookup has one answer. Two
  readings of one hour that map to one cell are not an error of the placement, and the cell of
  the array built for the hour holds the value of the last of them in time order (readings of
  one timestamp in file order): the resampler sorts the readings by timestamp before the loop
  places them. When the file is in time order, or the table sends no two minutes to one cell,
  this is the later reading in file order.
\<close>

theorem placement_last_write_wins:
  fixes rs :: "(int \<times> (string \<rightharpoonup> val)) list"
  assumes "\<forall>m < 60. fst (mapping_rule m) < 8 \<and> snd (mapping_rule m) < 8"
  shows "(\<forall>(h, hour_data) \<in> set (resample_h rs).
            \<exists>g. hourly_temp_array mapping_rule hour_data = Inr g
              \<and> (\<forall>i < 8. \<forall>j < 8. g ! i ! j =
                   (case filter (\<lambda>(t, row). floor_h t = h \<and> mapping_rule (minute_of t) = (i, j))
                           (sort_key fst rs) of
                      [] \<Rightarrow> None
                    | y # ys \<Rightarrow> at_val (snd (last (y # ys))) ''tas'')))
     \<and> (sorted (map fst rs) \<or> inj_on mapping_rule {..<60} \<longrightarrow>
          (\<forall>h i j. filter (\<lambda>(t, row). floor_h t = h \<and> mapping_rule (minute_of t) = (i, j))
                     (sort_key fst rs)
                 = filter (\<lambda>(t, row). floor_h t = h \<and> mapping_rule (minute_of t) = (i, j)) rs))"
proof (intro conjI impI)
  show "\<forall>(h, hour_data) \<in> set (resample_h rs).
            \<exists>g. hourly_temp_array mapping_rule hour_data = Inr g
              \<and> (\<forall>i < 8. \<forall>j < 8. g ! i ! j =
                   (case filter (\<lambda>(t, row). floor_h t = h \<and> mapping_rule (minute_of t) = (i, j))
                           (sort_key fst rs) of
                      [] \<Rightarrow> None
                    | y # ys \<Rightarrow> at_val (snd (last (y # ys))) ''tas''))"
  proof (intro ballI, clarify)
    fix h grp
    assume g: "(h, grp) \<in> set (resample_h rs)"
    have grp: "grp = filter (\<lambda>(t, r). floor_h t = h) (sort_key fst rs)"
      by (rule resample_h_group [OF g])
    from hourly_temp_array_cells [OF assms, of grp] obtain a where
      a: "hourly_temp_array mapping_rule grp = Inr a"
      and cells: "\<forall>i < 8. \<forall>j < 8. a ! i ! j =
           (case filter (\<lambda>(t, r). mapping_rule (minute_of t) = (i, j)) grp of
              [] \<Rightarrow> None
            | y # ys \<Rightarrow> at_val (snd (last (y # ys))) ''tas'')"
      by blast
    have f: "filter (\<lambda>(t, r). mapping_rule (minute_of t) = (i, j)) grp
        = filter (\<lambda>(t, row). floor_h t = h \<and> mapping_rule (minute_of t) = (i, j))
            (sort_key fst rs)" for i j
      unfolding grp by (simp add: split_def)
    from a cells show "\<exists>g. hourly_temp_array mapping_rule grp = Inr g
              \<and> (\<forall>i < 8. \<forall>j < 8. g ! i ! j =
                   (case filter (\<lambda>(t, row). floor_h t = h \<and> mapping_rule (minute_of t) = (i, j))
                           (sort_key fst rs) of
                      [] \<Rightarrow> None
                    | y # ys \<Rightarrow> at_val (snd (last (y # ys))) ''tas''))"
      unfolding f by blast
  qed
next
  assume "sorted (map fst rs) \<or> inj_on mapping_rule {..<60}"
  then show "\<forall>h i j. filter (\<lambda>(t, row). floor_h t = h \<and> mapping_rule (minute_of t) = (i, j))
                     (sort_key fst rs)
                 = filter (\<lambda>(t, row). floor_h t = h \<and> mapping_rule (minute_of t) = (i, j)) rs"
  proof
    assume "sorted (map fst rs)"
    then have "sort_key fst rs = rs" by (rule sort_key_id_if_sorted)
    then show ?thesis by simp
  next
    assume "inj_on mapping_rule {..<60}"
    then show ?thesis by (simp only: filter_hour_cell_stable) simp
  qed
qed

theorem placement_last_write_wins_witness:
  "\<exists>g. map (\<lambda>(h, hour_data). (h, map fst hour_data, hourly_temp_array paired hour_data))
           (resample_h (rows work_unsorted))
        = [(1063996440, [1063996442, 1063996443], Inr g)]
      \<and> g ! 0 ! 1 = Some 295.15
      \<and> map fst (filter (\<lambda>(t, row). floor_h t = 1063996440 \<and> rowwise (minute_of t) = (0, 3))
                    (sort_key fst (rows work_unsorted)))
          = [1063996443]"
proof -
  from work_unsorted_rows obtain r0 r1 where
    r: "rows work_unsorted = [(1063996443, r0), (1063996442, r1)]"
    and v: "at_val r0 ''tas'' = Some 295.15" "at_val r1 ''tas'' = Some 293.15"
    by (elim exE conjE)
  have b: "resample_h (rows work_unsorted)
      = [(1063996440, [(1063996442, r1), (1063996443, r0)])]"
    by (simp add: resample_h_def r floor_h_def)
  from placement_last_write_wins [OF paired_valid, of "rows work_unsorted"]
  have "\<forall>(h, hour_data) \<in> set (resample_h (rows work_unsorted)).
            \<exists>g. hourly_temp_array paired hour_data = Inr g
              \<and> (\<forall>i < 8. \<forall>j < 8. g ! i ! j =
                   (case filter (\<lambda>(t, row). floor_h t = h \<and> paired (minute_of t) = (i, j))
                           (sort_key fst (rows work_unsorted)) of
                      [] \<Rightarrow> None
                    | y # ys \<Rightarrow> at_val (snd (last (y # ys))) ''tas''))"
    by (rule conjunct1)
  then obtain g where g: "hourly_temp_array paired [(1063996442, r1), (1063996443, r0)] = Inr g"
    and cells: "\<forall>i < 8. \<forall>j < 8. g ! i ! j =
                   (case filter (\<lambda>(t, row). floor_h t = 1063996440 \<and> paired (minute_of t) = (i, j))
                           (sort_key fst (rows work_unsorted)) of
                      [] \<Rightarrow> None
                    | y # ys \<Rightarrow> at_val (snd (last (y # ys))) ''tas'')"
    unfolding b by auto
  from cells have c: "g ! 0 ! 1 = Some 295.15"
    by (simp add: r v floor_h_def minute_of_def paired_def)
  have "map (\<lambda>(h, hour_data). (h, map fst hour_data, hourly_temp_array paired hour_data))
           (resample_h (rows work_unsorted))
        = [(1063996440, [1063996442, 1063996443], Inr g)]"
    by (simp add: b g)
  moreover
  from placement_last_write_wins [OF rowwise_valid, of "rows work_unsorted"]
  have "sorted (map fst (rows work_unsorted)) \<or> inj_on rowwise {..<60} \<longrightarrow>
          (\<forall>h i j. filter (\<lambda>(t, row). floor_h t = h \<and> rowwise (minute_of t) = (i, j))
                     (sort_key fst (rows work_unsorted))
                 = filter (\<lambda>(t, row). floor_h t = h \<and> rowwise (minute_of t) = (i, j))
                     (rows work_unsorted))"
    by (rule conjunct2)
  with rowwise_inj
  have "filter (\<lambda>(t, row). floor_h t = 1063996440 \<and> rowwise (minute_of t) = (0, 3))
                     (sort_key fst (rows work_unsorted))
                 = filter (\<lambda>(t, row). floor_h t = 1063996440 \<and> rowwise (minute_of t) = (0, 3))
                     (rows work_unsorted)"
    by simp
  then have "map fst (filter (\<lambda>(t, row). floor_h t = 1063996440 \<and> rowwise (minute_of t) = (0, 3))
                    (sort_key fst (rows work_unsorted)))
          = [1063996443]"
    by (simp add: r floor_h_def minute_of_def rowwise_def)
  ultimately show ?thesis using c by (intro exI [of _ g] conjI)
qed

text \<open>
  Claim C6, as stated, fails on a file that is not in time order: the reading at 10:03 comes
  first in the file and the reading at 10:02 second, both map to the cell (0, 1), and the cell
  of the array built for the hour holds 295.15, the value of the first row, not 293.15, the
  value of the later row.
\<close>

theorem later_row_does_not_win:
  "map (\<lambda>(i, r). (at_val r ''min'', at_val r ''mcp9808'')) (rows file_unsorted)
     = [(Some 3, Some 22), (Some 2, Some 20)]
   \<and> paired 3 = (0, 1) \<and> paired 2 = (0, 1)
   \<and> map (\<lambda>(h, hour_data). case hourly_temp_array paired hour_data of
                               Inl e \<Rightarrow> (h, None)
                             | Inr g \<Rightarrow> (h, g ! 0 ! 1))
        (resample_h (rows work_unsorted))
       = [(1063996440, Some 295.15)]"
proof -
  from work_unsorted_rows obtain r0 r1 where
    r: "rows work_unsorted = [(1063996443, r0), (1063996442, r1)]"
    and v: "at_val r0 ''tas'' = Some 295.15" "at_val r1 ''tas'' = Some 293.15"
    by (elim exE conjE)
  have b: "resample_h (rows work_unsorted)
      = [(1063996440, [(1063996442, r1), (1063996443, r0)])]"
    by (simp add: resample_h_def r floor_h_def)
  have g: "hourly_temp_array paired [(1063996442, r1), (1063996443, r0)]
      = Inr (nan_grid[0 := (nan_grid ! 0)[1 := Some 295.15]])"
    by (simp add: hourly_temp_array_def minute_of_def paired_def v nan_grid_def)
  show ?thesis
    by (simp add: b g nan_grid_def file_unsorted_def reading_def at_val_def paired_def)
qed

lemma nan_grid_expanded:
  "nan_grid = [ [None, None, None, None, None, None, None, None],
               [None, None, None, None, None, None, None, None],
               [None, None, None, None, None, None, None, None],
               [None, None, None, None, None, None, None, None],
               [None, None, None, None, None, None, None, None],
               [None, None, None, None, None, None, None, None],
               [None, None, None, None, None, None, None, None],
               [None, None, None, None, None, None, None, None] ]"
  by (simp add: nan_grid_def eval_nat_numeral)

lemma get_files_station: "get_files [''station.rtf'', ''station.dat''] = [''station.dat'']"
  by (simp add: get_files_def endswith_def)

text \<open>
  Claim C5: the code does not do this. The resampler does yield every bin from the first hour
  to the last, the empty one too, and the array built for an empty bin is 64 missing cells;
  but the store of the first array in line 172 raises, so grid mode returns no table: for a
  file with readings at 10:05, 10:15, 10:20, 10:40 and 12:05 the call raises instead of
  returning three rows.
\<close>

theorem grid_mode_returns_no_rows:
  "resample_to_hourly_steps False rowwise file_gap = Inl IndexError
   \<and> map (\<lambda>(h, hour_data). (h, map fst hour_data)) (resample_h (rows work_gap))
       = [(1063996440, [1063996445, 1063996455, 1063996460, 1063996480]),
          (1063996500, []),
          (1063996560, [1063996565])]
   \<and> hourly_temp_array rowwise [] = Inr (replicate 8 (replicate 8 None))"
proof -
  have a: "resample_to_hourly_steps False rowwise file_gap = Inl IndexError"
    by (rule grid_mode_raises [OF work_gap])
  from work_gap_rows obtain r0 r1 r2 r3 r4 where
    r: "rows work_gap
       = [(1063996445, r0), (1063996455, r1), (1063996460, r2), (1063996480, r3), (1063996565, r4)]"
    by (elim exE conjE)
  have b: "map (\<lambda>(h, hour_data). (h, map fst hour_data)) (resample_h (rows work_gap))
       = [(1063996440, [1063996445, 1063996455, 1063996460, 1063996480]),
          (1063996500, []),
          (1063996560, [1063996565])]"
    by (simp add: resample_h_def r floor_h_def Let_def upt_2)
  have c: "hourly_temp_array rowwise [] = Inr (replicate 8 (replicate 8 None))"
    by (simp add: hourly_temp_array_empty nan_grid_def)
  from a b c show ?thesis by (intro conjI)
qed

text \<open>
  Claim C1: the code does not do this. For a file with readings of 20, 22 and 20 degrees at
  10:00, 10:30 and 10:45 the loop builds the array the claim describes (293.15, 295.15 and
  293.15 at the cells of minutes 0, 30 and 45, the other 61 cells missing), but the store of
  that array in line 172 raises, so \<^verbatim>\<open>extract\<close> returns no table and no final table has the
  array in any column.
\<close>

theorem grid_mode_raises_on_first_hour:
  "extract_files False rowwise (\<lambda>name. Inr file_example) [''station.rtf'', ''station.dat''] None
      = Inl IndexError
   \<and> rowwise 0 = (0, 0) \<and> rowwise 30 = (3, 6) \<and> rowwise 45 = (5, 5)
   \<and> map (\<lambda>(h, hour_data). case hourly_temp_array rowwise hour_data of
                               Inl e \<Rightarrow> (h, [], 0)
                             | Inr g \<Rightarrow> (h, [g ! 0 ! 0, g ! 3 ! 6, g ! 5 ! 5],
                                         length (filter (\<lambda>v. v = None) (concat g))))
        (resample_h (rows work_example))
       = [(1063996440, [Some 293.15, Some 295.15, Some 293.15], 61)]"
proof -
  have a: "resample_to_hourly_steps False rowwise file_example = Inl IndexError"
    by (rule grid_mode_raises [OF work_example])
  have e: "extract_files False rowwise (\<lambda>name. Inr file_example)
             [''station.rtf'', ''station.dat''] None = Inl IndexError"
    unfolding extract_files_def get_files_station
    by (simp add: convert_to_dataframe_def a)
  from work_example_rows obtain r0 r1 r2 where
    r: "rows work_example = [(1063996440, r0), (1063996470, r1), (1063996485, r2)]"
    and v: "at_val r0 ''tas'' = Some 293.15" "at_val r1 ''tas'' = Some 295.15"
      "at_val r2 ''tas'' = Some 293.15"
    by (elim exE conjE)
  have b: "resample_h (rows work_example)
      = [(1063996440, [(1063996440, r0), (1063996470, r1), (1063996485, r2)])]"
    by (simp add: resample_h_def r floor_h_def)
  have g: "hourly_temp_array rowwise [(1063996440, r0), (1063996470, r1), (1063996485, r2)]
      = Inr (((nan_grid[0 := (nan_grid ! 0)[0 := Some 293.15]])
                [3 := (nan_grid ! 3)[6 := Some 295.15]])
                [5 := (nan_grid ! 5)[5 := Some 293.15]])"
    by (simp add: hourly_temp_array_def minute_of_def rowwise_def v nan_grid_def)
  have m: "rowwise 0 = (0, 0) \<and> rowwise 30 = (3, 6) \<and> rowwise 45 = (5, 5)"
    by (simp add: rowwise_def)
  have c: "map (\<lambda>(h, hour_data). case hourly_temp_array rowwise hour_data of
                               Inl e \<Rightarrow> (h, [], 0)
                             | Inr g \<Rightarrow> (h, [g ! 0 ! 0, g ! 3 ! 6, g ! 5 ! 5],
                                         length (filter (\<lambda>v. v = None) (concat g))))
        (resample_h (rows work_example))
       = [(1063996440, [Some 293.15, Some 295.15, Some 293.15], 61)]"
    by (simp add: b g nan_grid_expanded del: not_None_eq not_Some_eq)
  from e m c show ?thesis by (intro conjI) simp_all
qed

section \<open>Extraction: the files are resampled one by one\<close>

lemma extract_loop_concat:
  assumes "extract_loop hourly mp read_csv files acc = Inr out"
  shows "\<exists>dfs. list_all2 (\<lambda>file df. convert_to_dataframe hourly mp read_csv file = Inr df) files dfs
           \<and> out = foldl pd_concat acc dfs"
  using assms
proof (induction files arbitrary: acc)
  case Nil
  then show ?case by simp
next
  case (Cons f files)
  from Cons.prems obtain df where
    c: "convert_to_dataframe hourly mp read_csv f = Inr df"
    and l: "extract_loop hourly mp read_csv files (pd_concat acc df) = Inr out"
    by (auto split: sum.splits)
  from Cons.IH [OF l] obtain dfs where
    "list_all2 (\<lambda>file df. convert_to_dataframe hourly mp read_csv file = Inr df) files dfs"
    "out = foldl pd_concat (pd_concat acc df) dfs"
    by blast
  with c have "list_all2 (\<lambda>file df. convert_to_dataframe hourly mp read_csv file = Inr df)
        (f # files) (df # dfs) \<and> out = foldl pd_concat acc (df # dfs)"
    by simp
  then show ?case by blast
qed

lemma pd_concat_index: "map fst (rows (pd_concat a b)) = map fst (rows a) @ map fst (rows b)"
  by (simp add: pd_concat_def Let_def split_def comp_def)

lemma foldl_pd_concat_index:
  "map fst (rows (foldl pd_concat acc dfs))
     = map fst (rows acc) @ concat (map (\<lambda>df. map fst (rows df)) dfs)"
  by (induction dfs arbitrary: acc) (simp_all add: pd_concat_index)

lemma at_cell_reindex: "c \<in> set cs \<Longrightarrow> at_cell (reindex cs r) c = at_cell r c"
  by (simp add: reindex_def at_cell_def)

lemma pd_concat_cells:
  assumes "c \<in> set (columns b)" and "rows a = [] \<or> c \<in> set (columns a)"
  shows "map (\<lambda>(i, r). at_cell r c) (rows (pd_concat a b))
     = map (\<lambda>(i, r). at_cell r c) (rows a) @ map (\<lambda>(i, r). at_cell r c) (rows b)"
  using assms by (auto simp: pd_concat_def Let_def split_def comp_def at_cell_reindex)

lemma pd_concat_columns: "set (columns (pd_concat a b)) = set (columns a) \<union> set (columns b)"
  by (auto simp: pd_concat_def Let_def)

lemma foldl_pd_concat_cells:
  assumes "\<forall>df \<in> set dfs. c \<in> set (columns df)" and "rows acc = [] \<or> c \<in> set (columns acc)"
  shows "map (\<lambda>(i, r). at_cell r c) (rows (foldl pd_concat acc dfs))
     = map (\<lambda>(i, r). at_cell r c) (rows acc)
       @ concat (map (\<lambda>df. map (\<lambda>(i, r). at_cell r c) (rows df)) dfs)"
  using assms
proof (induction dfs arbitrary: acc)
  case Nil
  then show ?case by simp
next
  case (Cons df dfs)
  from Cons.prems have c: "c \<in> set (columns df)" by simp
  then have "c \<in> set (columns (pd_concat acc df))"
    by (simp add: pd_concat_columns)
  with Cons.IH [of "pd_concat acc df"] Cons.prems(1)
  have "map (\<lambda>(i, r). at_cell r c) (rows (foldl pd_concat (pd_concat acc df) dfs))
     = map (\<lambda>(i, r). at_cell r c) (rows (pd_concat acc df))
       @ concat (map (\<lambda>df. map (\<lambda>(i, r). at_cell r c) (rows df)) dfs)"
    by simp
  then show ?case
    by (simp add: pd_concat_cells [OF c Cons.prems(2)])
qed

lemma resample_index:
  assumes "resample_to_hourly_steps hourly mp raw = Inr df"
  shows "\<exists>w. working_frame raw = Inr w \<and> map fst (rows df) = map fst (resample_h (rows w))"
proof -
  from assms obtain w where w: "working_frame raw = Inr w"
    by (auto simp: resample_to_hourly_steps_def split: sum.splits)
  have h: hourly
  proof (rule ccontr)
    assume "\<not> hourly"
    with grid_mode_raises [OF w, of mp] assms show False by simp
  qed
  with assms w have "df = resample_apply custom_aggregation w"
    by (simp add: resample_to_hourly_steps_def)
  then have "map fst (rows df) = map fst (resample_h (rows w))"
    by (simp add: resample_apply_def split_def comp_def)
  with w show ?thesis by blast
qed

lemma resample_h_increasing: "sorted_wrt (<) (map fst (resample_h rs))"
proof (cases "rs = []")
  case True
  then show ?thesis by (simp add: resample_h_def)
next
  case False
  show ?thesis
    unfolding resample_h_hours [OF False] sorted_wrt_map
    by (rule sorted_wrt_mono_rel [OF _ sorted_wrt_upt]) simp
qed

text \<open>
  Claim C3, as amended. The files are taken in the sorted order of their names, each file is
  resampled on its own, and the final table is the concatenation of the hourly tables of the
  files in that order: its index is the indexes of the files' tables one after the other, each
  of them strictly increasing, and a column that every file's table has keeps its cells. (In
  grid mode the resampling of a file raises, so there the extraction returns a table only when
  it reads no file.)
\<close>

theorem extract_concatenates_per_file:
  assumes "extract_files hourly mapping_rule read_csv listdir first_n_files = Inr out"
  shows "(sorted (get_files listdir)
           \<and> set (get_files listdir) = {name \<in> set listdir. endswith name ''.dat''})
     \<and> (\<exists>dfs. list_all2 (\<lambda>name df. convert_to_dataframe hourly mapping_rule read_csv name = Inr df)
                 (case first_n_files of None \<Rightarrow> get_files listdir
                  | Some k \<Rightarrow> take k (get_files listdir)) dfs
            \<and> map fst (rows out) = concat (map (\<lambda>df. map fst (rows df)) dfs)
            \<and> list_all (\<lambda>df. sorted_wrt (<) (map fst (rows df))) dfs
            \<and> (\<forall>c. list_all (\<lambda>df. c \<in> set (columns df)) dfs \<longrightarrow>
                 map (\<lambda>(i, r). at_cell r c) (rows out)
                   = concat (map (\<lambda>df. map (\<lambda>(i, r). at_cell r c) (rows df)) dfs)))"
proof -
  define files where "files = (case first_n_files of None \<Rightarrow> get_files listdir
                  | Some k \<Rightarrow> take k (get_files listdir))"
  have "take (case first_n_files of None \<Rightarrow> length (get_files listdir) | Some k \<Rightarrow> k)
          (get_files listdir) = files"
    by (simp add: files_def split: option.splits)
  with assms have "extract_loop hourly mapping_rule read_csv files \<lparr>columns = [], rows = []\<rparr> = Inr out"
    by (simp add: extract_files_def Let_def)
  from extract_loop_concat [OF this] obtain dfs where
    l: "list_all2 (\<lambda>name df. convert_to_dataframe hourly mapping_rule read_csv name = Inr df) files dfs"
    and o: "out = foldl pd_concat \<lparr>columns = [], rows = []\<rparr> dfs"
    by blast
  have i: "map fst (rows out) = concat (map (\<lambda>df. map fst (rows df)) dfs)"
    by (simp add: o foldl_pd_concat_index)
  have s: "list_all (\<lambda>df. sorted_wrt (<) (map fst (rows df))) dfs"
    unfolding list_all_iff
  proof
    fix df assume "df \<in> set dfs"
    with l obtain name where "convert_to_dataframe hourly mapping_rule read_csv name = Inr df"
      by (auto simp: list_all2_conv_all_nth in_set_conv_nth)
    then obtain raw where "resample_to_hourly_steps hourly mapping_rule raw = Inr df"
      by (auto simp: convert_to_dataframe_def split: sum.splits)
    from resample_index [OF this] show "sorted_wrt (<) (map fst (rows df))"
      by (auto simp: resample_h_increasing)
  qed
  have c: "map (\<lambda>(i, r). at_cell r c) (rows out)
        = concat (map (\<lambda>df. map (\<lambda>(i, r). at_cell r c) (rows df)) dfs)"
    if "list_all (\<lambda>df. c \<in> set (columns df)) dfs" for c
    using that by (simp add: o foldl_pd_concat_cells list_all_iff)
  have g: "sorted (get_files listdir)
      \<and> set (get_files listdir) = {name \<in> set listdir. endswith name ''.dat''}"
    by (simp add: get_files_def)
  from l i s c have "\<exists>dfs. list_all2 (\<lambda>name df. convert_to_dataframe hourly mapping_rule read_csv name = Inr df)
                 (case first_n_files of None \<Rightarrow> get_files listdir
                  | Some k \<Rightarrow> take k (get_files listdir)) dfs
            \<and> map fst (rows out) = concat (map (\<lambda>df. map fst (rows df)) dfs)
            \<and> list_all (\<lambda>df. sorted_wrt (<) (map fst (rows df))) dfs
            \<and> (\<forall>c. list_all (\<lambda>df. c \<in> set (columns df)) dfs \<longrightarrow>
                 map (\<lambda>(i, r). at_cell r c) (rows out)
                   = concat (map (\<lambda>df. map (\<lambda>(i, r). at_cell r c) (rows df)) dfs))"
    unfolding files_def by (intro exI [of _ dfs] conjI allI impI) assumption+
  with g show ?thesis by (rule conjI)
qed

lemma work_a: "working_frame file_a = Inr work_a"
proof -
  have "\<exists>df. working_frame file_a = Inr df"
    by (rule working_frame_ok [where stamps = "[1063996445, 1063996460, 1063996480]"])
      (simp_all add: file_a_def reading_datetime time_columns_def file_columns_def tas_sensor_def)
  then show ?thesis
    by (auto simp: work_a_def)
qed

lemma work_b: "working_frame file_b = Inr work_b"
proof -
  have "\<exists>df. working_frame file_b = Inr df"
    by (rule working_frame_ok [where stamps = "[1063996450, 1063996470, 1063996490]"])
      (simp_all add: file_b_def reading_datetime time_columns_def file_columns_def tas_sensor_def)
  then show ?thesis
    by (auto simp: work_b_def)
qed

lemma work_a_rows:
  "\<exists>r0 r1 r2. rows work_a = [(1063996445, r0), (1063996460, r1), (1063996480, r2)]
     \<and> at_val r0 ''tas'' = Some 293.15 \<and> at_val r1 ''tas'' = Some 294.15
     \<and> at_val r2 ''tas'' = Some 295.15"
  apply (simp add: work_a_def file_a_def eval_working_frame)
  apply (simp add: eval_cells)
  done

lemma work_b_rows:
  "\<exists>r0 r1 r2. rows work_b = [(1063996450, r0), (1063996470, r1), (1063996490, r2)]
     \<and> at_val r0 ''tas'' = Some 303.15 \<and> at_val r1 ''tas'' = Some 304.15
     \<and> at_val r2 ''tas'' = Some 305.15"
  apply (simp add: work_b_def file_b_def eval_working_frame)
  apply (simp add: eval_cells)
  done

lemma work_a_columns: "columns work_a = [''mcp9808'', ''tas'']"
  by (simp add: work_a_def file_a_def eval_working_frame)

lemma work_b_columns: "columns work_b = [''mcp9808'', ''tas'']"
  by (simp add: work_b_def file_b_def eval_working_frame)

lemma resample_apply_cell:
  "c \<in> set (columns df) \<Longrightarrow>
   map (\<lambda>(h, r). (h, at_cell r c)) (rows (resample_apply f df))
     = map (\<lambda>(h, grp). (h, Scalar (f (map (\<lambda>(t, r). at_val r c) grp)))) (resample_h (rows df))"
  by (simp add: resample_apply_def at_cell_def split_def comp_def)

lemma resample_a: "resample_to_hourly_steps True rowwise file_a = Inr hourly_a"
  by (simp add: resample_to_hourly_steps_def work_a hourly_a_def)

lemma resample_b: "resample_to_hourly_steps True rowwise file_b = Inr hourly_b"
  by (simp add: resample_to_hourly_steps_def work_b hourly_b_def)

lemma hourly_a_rows:
  "\<exists>r. rows hourly_a = [(1063996440, r)] \<and> at_cell r ''tas'' = Scalar (Some 294.15)"
proof -
  from work_a_rows obtain r0 r1 r2 where
    r: "rows work_a = [(1063996445, r0), (1063996460, r1), (1063996480, r2)]"
    and v: "at_val r0 ''tas'' = Some 293.15" "at_val r1 ''tas'' = Some 294.15"
      "at_val r2 ''tas'' = Some 295.15"
    by (elim exE conjE)
  have b: "resample_h (rows work_a)
      = [(1063996440, [(1063996445, r0), (1063996460, r1), (1063996480, r2)])]"
    by (simp add: resample_h_def r floor_h_def)
  have "map (\<lambda>(h, r). (h, at_cell r ''tas'')) (rows hourly_a) = [(1063996440, Scalar (Some 294.15))]"
    unfolding hourly_a_def
    by (simp add: resample_apply_cell work_a_columns b v custom_aggregation_def nunique_def
        np_mean_def dropna_vals_comprehension)
  then show ?thesis
    by (auto simp: map_eq_Cons_conv)
qed

lemma hourly_b_rows:
  "\<exists>r. rows hourly_b = [(1063996440, r)] \<and> at_cell r ''tas'' = Scalar (Some 304.15)"
proof -
  from work_b_rows obtain r0 r1 r2 where
    r: "rows work_b = [(1063996450, r0), (1063996470, r1), (1063996490, r2)]"
    and v: "at_val r0 ''tas'' = Some 303.15" "at_val r1 ''tas'' = Some 304.15"
      "at_val r2 ''tas'' = Some 305.15"
    by (elim exE conjE)
  have b: "resample_h (rows work_b)
      = [(1063996440, [(1063996450, r0), (1063996470, r1), (1063996490, r2)])]"
    by (simp add: resample_h_def r floor_h_def)
  have "map (\<lambda>(h, r). (h, at_cell r ''tas'')) (rows hourly_b) = [(1063996440, Scalar (Some 304.15))]"
    unfolding hourly_b_def
    by (simp add: resample_apply_cell work_b_columns b v custom_aggregation_def nunique_def
        np_mean_def dropna_vals_comprehension)
  then show ?thesis
    by (auto simp: map_eq_Cons_conv)
qed

lemma hourly_a_columns: "columns hourly_a = [''mcp9808'', ''tas'']"
  by (simp add: hourly_a_def resample_apply_def work_a_columns)

lemma hourly_b_columns: "columns hourly_b = [''mcp9808'', ''tas'']"
  by (simp add: hourly_b_def resample_apply_def work_b_columns)

lemma get_files_two: "get_files [''b.dat'', ''notes.rtf'', ''a.dat''] = [''a.dat'', ''b.dat'']"
  by (simp add: get_files_def endswith_def)

lemma extract_two:
  "extract_files True rowwise two_files [''b.dat'', ''notes.rtf'', ''a.dat''] None
     = Inr (pd_concat (pd_concat \<lparr>columns = [], rows = []\<rparr> hourly_a) hourly_b)"
  by (simp add: extract_files_def get_files_two convert_to_dataframe_def two_files_def
      resample_a resample_b)

theorem extract_concatenates_per_file_witness:
  "\<exists>out. extract_files True rowwise two_files [''b.dat'', ''notes.rtf'', ''a.dat''] None = Inr out
     \<and> get_files [''b.dat'', ''notes.rtf'', ''a.dat''] = [''a.dat'', ''b.dat'']
     \<and> map fst (rows out) = [1063996440, 1063996440]
     \<and> map (\<lambda>(i, r). at_cell r ''tas'') (rows out) = [Scalar (Some 294.15), Scalar (Some 304.15)]"
proof -
  obtain out where
    o: "extract_files True rowwise two_files [''b.dat'', ''notes.rtf'', ''a.dat''] None = Inr out"
    by (rule that [OF extract_two])
  have "\<exists>dfs. list_all2 (\<lambda>name df. convert_to_dataframe True rowwise two_files name = Inr df)
          (case None of None \<Rightarrow> get_files [''b.dat'', ''notes.rtf'', ''a.dat'']
           | Some k \<Rightarrow> take k (get_files [''b.dat'', ''notes.rtf'', ''a.dat''])) dfs
       \<and> map fst (rows out) = concat (map (\<lambda>df. map fst (rows df)) dfs)
       \<and> (\<forall>c. list_all (\<lambda>df. c \<in> set (columns df)) dfs \<longrightarrow>
                 map (\<lambda>(i, r). at_cell r c) (rows out)
                   = concat (map (\<lambda>df. map (\<lambda>(i, r). at_cell r c) (rows df)) dfs))"
    using extract_concatenates_per_file [OF o, THEN conjunct2]
    by (elim exE conjE, intro exI conjI)
  then obtain dfs where
    l: "list_all2 (\<lambda>name df. convert_to_dataframe True rowwise two_files name = Inr df)
          (case None of None \<Rightarrow> get_files [''b.dat'', ''notes.rtf'', ''a.dat'']
           | Some k \<Rightarrow> take k (get_files [''b.dat'', ''notes.rtf'', ''a.dat''])) dfs"
    and i: "map fst (rows out) = concat (map (\<lambda>df. map fst (rows df)) dfs)"
    and c: "\<forall>c. list_all (\<lambda>df. c \<in> set (columns df)) dfs \<longrightarrow>
                 map (\<lambda>(i, r). at_cell r c) (rows out)
                   = concat (map (\<lambda>df. map (\<lambda>(i, r). at_cell r c) (rows df)) dfs)"
    by (elim exE conjE)
  from l have l': "list_all2 (\<lambda>name df. convert_to_dataframe True rowwise two_files name = Inr df)
          [''a.dat'', ''b.dat''] dfs"
    by (simp only: option.case get_files_two)
  then obtain da db where d: "dfs = [da, db]"
    and a: "convert_to_dataframe True rowwise two_files ''a.dat'' = Inr da"
    and b: "convert_to_dataframe True rowwise two_files ''b.dat'' = Inr db"
    unfolding list_all2_Cons1 by auto
  have ca: "convert_to_dataframe True rowwise two_files ''a.dat'' = Inr hourly_a"
    by (simp add: convert_to_dataframe_def two_files_def resample_a)
  have cb: "convert_to_dataframe True rowwise two_files ''b.dat'' = Inr hourly_b"
    by (simp add: convert_to_dataframe_def two_files_def resample_b)
  from a ca have da: "da = hourly_a" by simp
  from b cb have db: "db = hourly_b" by simp
  from hourly_a_rows obtain ra where
    ra: "rows hourly_a = [(1063996440, ra)]" "at_cell ra ''tas'' = Scalar (Some 294.15)"
    by (elim exE conjE)
  from hourly_b_rows obtain rb where
    rb: "rows hourly_b = [(1063996440, rb)]" "at_cell rb ''tas'' = Scalar (Some 304.15)"
    by (elim exE conjE)
  have m: "map fst (rows out) = [1063996440, 1063996440]"
    by (simp add: i d da db ra rb)
  have "list_all (\<lambda>df. ''tas'' \<in> set (columns df)) dfs"
    by (simp add: d da db hourly_a_columns hourly_b_columns)
  with c have "map (\<lambda>(i, r). at_cell r ''tas'') (rows out)
                   = concat (map (\<lambda>df. map (\<lambda>(i, r). at_cell r ''tas'') (rows df)) dfs)"
    by (elim allE [of _ "''tas''"] impE)
  then have t: "map (\<lambda>(i, r). at_cell r ''tas'') (rows out) = [Scalar (Some 294.15), Scalar (Some 304.15)]"
    by (simp add: d da db ra rb)
  show ?thesis
    by (intro exI [of _ out] conjI) (rule o, rule get_files_two, rule m, rule t)
qed

text \<open>
  Claim C3, as stated, fails in scalar mode on two files that cover one hour. The readings of
  \<^verbatim>\<open>a.dat\<close> (20, 21 and 22 degrees at 10:05, 10:20 and 10:40) and those of \<^verbatim>\<open>b.dat\<close>
  (30, 31 and 32 degrees at 10:10, 10:30 and 10:50) all fall within the hour from 10:00, and
  the final table has two rows for that hour, the first with the mean of the readings of
  \<^verbatim>\<open>a.dat\<close> only, 294.15, and the second with the mean of those of \<^verbatim>\<open>b.dat\<close> only,
  304.15; the index 10:00, 10:00 is not increasing.
\<close>

theorem two_files_one_hour:
  "(case extract_files True rowwise two_files [''b.dat'', ''notes.rtf'', ''a.dat''] None of
      Inl e \<Rightarrow> []
    | Inr out \<Rightarrow> map (\<lambda>(h, r). (h, at_cell r ''tas'')) (rows out))
     = [(1063996440, Scalar (Some 294.15)), (1063996440, Scalar (Some 304.15))]
   \<and> map (\<lambda>(t, r). floor_h t) (rows work_a @ rows work_b)
     = [1063996440, 1063996440, 1063996440, 1063996440, 1063996440, 1063996440]"
proof -
  from hourly_a_rows obtain ra where
    ra: "rows hourly_a = [(1063996440, ra)]" "at_cell ra ''tas'' = Scalar (Some 294.15)"
    by (elim exE conjE)
  from hourly_b_rows obtain rb where
    rb: "rows hourly_b = [(1063996440, rb)]" "at_cell rb ''tas'' = Scalar (Some 304.15)"
    by (elim exE conjE)
  from work_a_rows obtain a0 a1 a2 where
    wa: "rows work_a = [(1063996445, a0), (1063996460, a1), (1063996480, a2)]"
    by (elim exE conjE)
  from work_b_rows obtain b0 b1 b2 where
    wb: "rows work_b = [(1063996450, b0), (1063996470, b1), (1063996490, b2)]"
    by (elim exE conjE)
  have x: "(case extract_files True rowwise two_files [''b.dat'', ''notes.rtf'', ''a.dat''] None of
      Inl e \<Rightarrow> []
    | Inr out \<Rightarrow> map (\<lambda>(h, r). (h, at_cell r ''tas'')) (rows out))
     = [(1063996440, Scalar (Some 294.15)), (1063996440, Scalar (Some 304.15))]"
    by (simp add: extract_two pd_concat_def Let_def hourly_a_columns hourly_b_columns ra rb
        at_cell_reindex)
  have y: "map (\<lambda>(t, r). floor_h t) (rows work_a @ rows work_b)
     = [1063996440, 1063996440, 1063996440, 1063996440, 1063996440, 1063996440]"
    by (simp add: wa wb floor_h_def)
  from x y show ?thesis by (rule conjI)
qed

end
